theory Spec2Isabelle
  imports Main "HOL-Library.Word"
begin

section \<open>Record locks: the tables and the context of a call\<close>

text \<open>
  The migration that creates \<open>record_locks\<close> and \<open>user_presence\<close> and the PL/pgSQL
  functions over them is embedded here. A table is the list of its rows; the constraints
  of the schema (\<open>PRIMARY KEY\<close>, \<open>UNIQUE\<close>, \<open>NOT NULL\<close>) are checked where a row is
  written and raise an error there, as PostgreSQL does. A nullable column is an
  \<open>option\<close>.

  A \<open>UUID\<close> is an opaque key. A \<open>TIMESTAMPTZ\<close> is a count of microseconds, the
  resolution PostgreSQL stores; an interval of \<open>n\<close> minutes is \<open>n * 60000000\<close>.
  For a 32-bit \<open>p_lock_duration_minutes\<close> neither the interval nor its sum with
  \<open>NOW()\<close> leaves the range of its type, so both are plain integers here.
\<close>

type_synonym uuid = nat
type_synonym timestamptz = int

definition minutes :: "int \<Rightarrow> int" where
  "minutes n = n * 60000000"

text \<open>A row of \<open>record_locks\<close>. The column \<open>id\<close> is the field \<open>lock_id\<close>.\<close>

record record_lock =
  lock_id :: uuid
  entity_type :: string
  entity_id :: uuid
  locked_by :: uuid
  locked_by_name :: string
  locked_at :: "timestamptz option"
  expires_at :: timestamptz

text \<open>A row of \<open>user_presence\<close>. The column \<open>id\<close> is the field \<open>up_id\<close>.\<close>

record user_presence_row =
  up_id :: uuid
  up_user_id :: uuid
  up_user_name :: string
  up_current_page :: "string option"
  up_entity_type :: "string option"
  up_entity_id :: "uuid option"
  up_status :: "string option"
  up_last_seen :: "timestamptz option"

text \<open>
  The database state the lock and presence functions read and write: \<open>profiles\<close>
  (only the \<open>NOT NULL\<close> column \<open>full_name\<close>, by primary key),
  \<open>record_locks\<close> and \<open>user_presence\<close>.
\<close>

record db =
  profiles :: "uuid \<Rightarrow> string option"
  record_locks :: "record_lock list"
  user_presence :: "user_presence_row list"

text \<open>
  What a call obtains from the server rather than from its arguments: \<open>auth.uid()\<close>
  (\<open>NULL\<close> when the caller is not authenticated), \<open>NOW()\<close> (constant during one
  call) and the value \<open>uuid_generate_v4()\<close> yields for a row inserted by the call.
\<close>

record pg_context =
  auth_uid :: "uuid option"
  now :: timestamptz
  uuid_generate_v4 :: uuid

datatype pg_error = not_null_violation | unique_violation | numeric_value_out_of_range

text \<open>
  The JSONB object \<open>acquire_lock\<close> builds, with the keys of the client's
  \<open>LockResult\<close> interface; a key the object does not carry is \<open>None\<close>.
\<close>

record LockResult =
  success :: bool
  res_lock_id :: "uuid option"
  res_expires_at :: "timestamptz option"
  extended :: "bool option"
  took_over :: "bool option"
  created :: "bool option"
  error :: "string option"
  res_locked_by :: "uuid option"
  res_locked_by_name :: "string option"
  res_locked_at :: "timestamptz option"

definition no_result :: LockResult where
  "no_result = \<lparr>success = False, res_lock_id = None, res_expires_at = None,
     extended = None, took_over = None, created = None, error = None,
     res_locked_by = None, res_locked_by_name = None, res_locked_at = None\<rparr>"

text \<open>\<open>SELECT * INTO v_existing_lock FROM record_locks WHERE entity_type = ... AND entity_id = ...\<close>:
  the first matching row, \<open>FOUND\<close> iff there is one.\<close>

definition select_lock :: "record_lock list \<Rightarrow> string \<Rightarrow> uuid \<Rightarrow> record_lock option" where
  "select_lock locks p_entity_type p_entity_id =
     find (\<lambda>r. entity_type r = p_entity_type \<and> entity_id r = p_entity_id) locks"

text \<open>\<open>UPDATE record_locks SET ... WHERE id = ...\<close>.\<close>

definition update_where_id :: "uuid \<Rightarrow> (record_lock \<Rightarrow> record_lock) \<Rightarrow> record_lock list \<Rightarrow> record_lock list" where
  "update_where_id i f locks = map (\<lambda>r. if lock_id r = i then f r else r) locks"

text \<open>\<open>INSERT INTO record_locks\<close>: the primary key and
  \<open>UNIQUE(entity_type, entity_id)\<close> reject a duplicate.\<close>

definition insert_lock :: "record_lock \<Rightarrow> record_lock list \<Rightarrow> pg_error + record_lock list" where
  "insert_lock row locks =
     (if list_ex (\<lambda>r. lock_id r = lock_id row \<or>
                      (entity_type r = entity_type row \<and> entity_id r = entity_id row)) locks
      then Inl unique_violation
      else Inr (locks @ [row]))"

section \<open>Lock management functions\<close>

definition acquire_lock ::
  "db \<Rightarrow> pg_context \<Rightarrow> string \<Rightarrow> uuid \<Rightarrow> int \<Rightarrow> pg_error + (LockResult \<times> db)" where
  "acquire_lock d ctx p_entity_type p_entity_id p_lock_duration_minutes =
     (case auth_uid ctx of
        None \<Rightarrow> Inr (no_result\<lparr>error := Some ''Not authenticated''\<rparr>, d)
      | Some v_user_id \<Rightarrow>
          let v_user_name = profiles d v_user_id;
              v_expires_at = now ctx + minutes p_lock_duration_minutes
          in (case select_lock (record_locks d) p_entity_type p_entity_id of
                Some v_existing_lock \<Rightarrow>
                  if locked_by v_existing_lock = v_user_id then
                    Inr (no_result\<lparr>success := True,
                           res_lock_id := Some (lock_id v_existing_lock),
                           res_expires_at := Some v_expires_at,
                           extended := Some True\<rparr>,
                         d\<lparr>record_locks := update_where_id (lock_id v_existing_lock)
                              (\<lambda>r. r\<lparr>expires_at := v_expires_at, locked_at := Some (now ctx)\<rparr>)
                              (record_locks d)\<rparr>)
                  else if expires_at v_existing_lock < now ctx then
                    (case v_user_name of
                       None \<Rightarrow> Inl not_null_violation
                     | Some name \<Rightarrow>
                         Inr (no_result\<lparr>success := True,
                                res_lock_id := Some (lock_id v_existing_lock),
                                res_expires_at := Some v_expires_at,
                                took_over := Some True\<rparr>,
                              d\<lparr>record_locks := update_where_id (lock_id v_existing_lock)
                                   (\<lambda>r. r\<lparr>locked_by := v_user_id,
                                           locked_by_name := name,
                                           locked_at := Some (now ctx),
                                           expires_at := v_expires_at\<rparr>)
                                   (record_locks d)\<rparr>))
                  else
                    Inr (no_result\<lparr>success := False,
                           error := Some ''Record is being edited'',
                           res_locked_by := Some (locked_by v_existing_lock),
                           res_locked_by_name := Some (locked_by_name v_existing_lock),
                           res_locked_at := locked_at v_existing_lock,
                           res_expires_at := Some (expires_at v_existing_lock)\<rparr>, d)
              | None \<Rightarrow>
                  (case v_user_name of
                     None \<Rightarrow> Inl not_null_violation
                   | Some name \<Rightarrow>
                       (case insert_lock
                               \<lparr>lock_id = uuid_generate_v4 ctx,
                                entity_type = p_entity_type,
                                entity_id = p_entity_id,
                                locked_by = v_user_id,
                                locked_by_name = name,
                                locked_at = Some (now ctx),
                                expires_at = v_expires_at\<rparr>
                               (record_locks d) of
                          Inl e \<Rightarrow> Inl e
                        | Inr locks \<Rightarrow>
                            Inr (no_result\<lparr>success := True,
                                   res_lock_id := Some (uuid_generate_v4 ctx),
                                   res_expires_at := Some v_expires_at,
                                   created := Some True\<rparr>,
                                 d\<lparr>record_locks := locks\<rparr>)))))"

definition release_lock :: "db \<Rightarrow> pg_context \<Rightarrow> string \<Rightarrow> uuid \<Rightarrow> bool \<times> db" where
  "release_lock d ctx p_entity_type p_entity_id =
     (case auth_uid ctx of
        None \<Rightarrow> (False, d)
      | Some v_user_id \<Rightarrow>
          let ours = (\<lambda>r. entity_type r = p_entity_type \<and> entity_id r = p_entity_id
                           \<and> locked_by r = v_user_id)
          in (list_ex ours (record_locks d),
              d\<lparr>record_locks := filter (\<lambda>r. \<not> ours r) (record_locks d)\<rparr>))"

text \<open>The JSONB object \<open>check_lock\<close> builds, with the keys of the client's
  \<open>LockInfo\<close> interface. \<open>is_mine\<close> is the SQL value of
  \<open>v_lock.locked_by = v_user_id\<close>, which is \<open>NULL\<close> when \<open>auth.uid()\<close> is.\<close>

record LockInfo =
  locked :: bool
  is_mine :: "bool option"
  info_locked_by :: "uuid option"
  info_locked_by_name :: "string option"
  info_locked_at :: "timestamptz option"
  info_expires_at :: "timestamptz option"

definition not_locked :: LockInfo where
  "not_locked = \<lparr>locked = False, is_mine = None, info_locked_by = None,
     info_locked_by_name = None, info_locked_at = None, info_expires_at = None\<rparr>"

definition check_lock :: "db \<Rightarrow> pg_context \<Rightarrow> string \<Rightarrow> uuid \<Rightarrow> LockInfo" where
  "check_lock d ctx p_entity_type p_entity_id =
     (case find (\<lambda>r. entity_type r = p_entity_type \<and> entity_id r = p_entity_id
                       \<and> expires_at r > now ctx) (record_locks d) of
        None \<Rightarrow> not_locked
      | Some v_lock \<Rightarrow>
          \<lparr>locked = True,
           is_mine = map_option (\<lambda>v_user_id. locked_by v_lock = v_user_id) (auth_uid ctx),
           info_locked_by = Some (locked_by v_lock),
           info_locked_by_name = Some (locked_by_name v_lock),
           info_locked_at = locked_at v_lock,
           info_expires_at = Some (expires_at v_lock)\<rparr>)"

definition cleanup_expired_locks :: "db \<Rightarrow> pg_context \<Rightarrow> int \<times> db" where
  "cleanup_expired_locks d ctx =
     (int (length (filter (\<lambda>r. expires_at r < now ctx) (record_locks d))),
      d\<lparr>record_locks := filter (\<lambda>r. \<not> expires_at r < now ctx) (record_locks d)\<rparr>)"

text \<open>
  Calls that race. The function takes no row lock (\<open>FOR UPDATE\<close>) and its
  \<open>INSERT\<close> has no \<open>ON CONFLICT\<close>, and PostgreSQL runs each statement on the table
  as committed when that statement starts. So another call can commit between the
  \<open>SELECT\<close>s of a call and its \<open>INSERT\<close> or \<open>UPDATE\<close>: the same body, with the
  \<open>SELECT\<close>s on the state \<open>seen\<close> and the write on the state \<open>d\<close> that is
  current by then. With \<open>seen = d\<close> it is \<open>acquire_lock\<close>.
\<close>

definition acquire_lock_racing ::
  "db \<Rightarrow> db \<Rightarrow> pg_context \<Rightarrow> string \<Rightarrow> uuid \<Rightarrow> int \<Rightarrow> pg_error + (LockResult \<times> db)" where
  "acquire_lock_racing seen d ctx p_entity_type p_entity_id p_lock_duration_minutes =
     (case auth_uid ctx of
        None \<Rightarrow> Inr (no_result\<lparr>error := Some ''Not authenticated''\<rparr>, d)
      | Some v_user_id \<Rightarrow>
          let v_user_name = profiles seen v_user_id;
              v_expires_at = now ctx + minutes p_lock_duration_minutes
          in (case select_lock (record_locks seen) p_entity_type p_entity_id of
                Some v_existing_lock \<Rightarrow>
                  if locked_by v_existing_lock = v_user_id then
                    Inr (no_result\<lparr>success := True,
                           res_lock_id := Some (lock_id v_existing_lock),
                           res_expires_at := Some v_expires_at,
                           extended := Some True\<rparr>,
                         d\<lparr>record_locks := update_where_id (lock_id v_existing_lock)
                              (\<lambda>r. r\<lparr>expires_at := v_expires_at, locked_at := Some (now ctx)\<rparr>)
                              (record_locks d)\<rparr>)
                  else if expires_at v_existing_lock < now ctx then
                    (case v_user_name of
                       None \<Rightarrow> Inl not_null_violation
                     | Some name \<Rightarrow>
                         Inr (no_result\<lparr>success := True,
                                res_lock_id := Some (lock_id v_existing_lock),
                                res_expires_at := Some v_expires_at,
                                took_over := Some True\<rparr>,
                              d\<lparr>record_locks := update_where_id (lock_id v_existing_lock)
                                   (\<lambda>r. r\<lparr>locked_by := v_user_id,
                                           locked_by_name := name,
                                           locked_at := Some (now ctx),
                                           expires_at := v_expires_at\<rparr>)
                                   (record_locks d)\<rparr>))
                  else
                    Inr (no_result\<lparr>success := False,
                           error := Some ''Record is being edited'',
                           res_locked_by := Some (locked_by v_existing_lock),
                           res_locked_by_name := Some (locked_by_name v_existing_lock),
                           res_locked_at := locked_at v_existing_lock,
                           res_expires_at := Some (expires_at v_existing_lock)\<rparr>, d)
              | None \<Rightarrow>
                  (case v_user_name of
                     None \<Rightarrow> Inl not_null_violation
                   | Some name \<Rightarrow>
                       (case insert_lock
                               \<lparr>lock_id = uuid_generate_v4 ctx,
                                entity_type = p_entity_type,
                                entity_id = p_entity_id,
                                locked_by = v_user_id,
                                locked_by_name = name,
                                locked_at = Some (now ctx),
                                expires_at = v_expires_at\<rparr>
                               (record_locks d) of
                          Inl e \<Rightarrow> Inl e
                        | Inr locks \<Rightarrow>
                            Inr (no_result\<lparr>success := True,
                                   res_lock_id := Some (uuid_generate_v4 ctx),
                                   res_expires_at := Some v_expires_at,
                                   created := Some True\<rparr>,
                                 d\<lparr>record_locks := locks\<rparr>)))))"

text \<open>
  The states of the lock table the three writing functions can produce from an empty
  table, whoever calls them and whenever. A call that raises leaves the table as it was.
\<close>

inductive reachable :: "db \<Rightarrow> bool" where
  initial: "record_locks d = [] \<Longrightarrow> reachable d"
| acquire: "reachable d \<Longrightarrow> acquire_lock d ctx p_entity_type p_entity_id p_minutes = Inr (res, d')
     \<Longrightarrow> reachable d'"
| release: "reachable d \<Longrightarrow> release_lock d ctx p_entity_type p_entity_id = (b, d')
     \<Longrightarrow> reachable d'"
| cleanup: "reachable d \<Longrightarrow> cleanup_expired_locks d ctx = (n, d') \<Longrightarrow> reachable d'"

text \<open>The constraints of \<open>record_locks\<close>: the primary key and
  \<open>UNIQUE(entity_type, entity_id)\<close>.\<close>

definition locks_unique :: "record_lock list \<Rightarrow> bool" where
  "locks_unique locks \<longleftrightarrow>
     distinct (map lock_id locks) \<and> distinct (map (\<lambda>r. (entity_type r, entity_id r)) locks)"

section \<open>Presence: who is viewing a record\<close>

text \<open>
  The columns \<open>entity_type\<close>, \<open>entity_id\<close> and \<open>last_seen\<close> of \<open>user_presence\<close>
  are nullable and \<open>auth.uid()\<close> may be \<open>NULL\<close>, so the \<open>WHERE\<close> clause of
  \<open>get_viewers\<close> is evaluated in SQL's three-valued logic: a comparison with
  \<open>NULL\<close> is \<open>NULL\<close> (here \<open>None\<close>), and a row is returned only where the
  condition is true.
\<close>

definition sql_eq :: "'a option \<Rightarrow> 'a option \<Rightarrow> bool option" where
  "sql_eq a b = (case a of None \<Rightarrow> None | Some x \<Rightarrow> (case b of None \<Rightarrow> None | Some y \<Rightarrow> Some (x = y)))"

definition sql_neq :: "'a option \<Rightarrow> 'a option \<Rightarrow> bool option" where
  "sql_neq a b = (case a of None \<Rightarrow> None | Some x \<Rightarrow> (case b of None \<Rightarrow> None | Some y \<Rightarrow> Some (x \<noteq> y)))"

definition sql_gt :: "timestamptz option \<Rightarrow> timestamptz option \<Rightarrow> bool option" where
  "sql_gt a b = (case a of None \<Rightarrow> None | Some x \<Rightarrow> (case b of None \<Rightarrow> None | Some y \<Rightarrow> Some (x > y)))"

definition sql_and :: "bool option \<Rightarrow> bool option \<Rightarrow> bool option" where
  "sql_and a b =
     (if a = Some False \<or> b = Some False then Some False
      else if a = Some True \<and> b = Some True then Some True
      else None)"

definition is_true :: "bool option \<Rightarrow> bool" where
  "is_true c \<longleftrightarrow> c = Some True"

text \<open>A row of the table \<open>get_viewers\<close> returns (the client's \<open>Viewer\<close>).\<close>

record Viewer =
  user_id :: uuid
  user_name :: string
  status :: "string option"
  last_seen :: "timestamptz option"

definition get_viewers :: "db \<Rightarrow> pg_context \<Rightarrow> string \<Rightarrow> uuid \<Rightarrow> Viewer list" where
  "get_viewers d ctx p_entity_type p_entity_id =
     map (\<lambda>up. \<lparr>user_id = up_user_id up, user_name = up_user_name up,
                 status = up_status up, last_seen = up_last_seen up\<rparr>)
       (filter (\<lambda>up. is_true
            (sql_and (sql_and (sql_and
               (sql_eq (up_entity_type up) (Some p_entity_type))
               (sql_eq (up_entity_id up) (Some p_entity_id)))
               (sql_gt (up_last_seen up) (Some (now ctx - minutes 2))))
               (sql_neq (Some (up_user_id up)) (auth_uid ctx))))
          (user_presence d))"

section \<open>Version tracking for optimistic concurrency\<close>

text \<open>
  A row of one of the six business tables that carry \<open>version INTEGER DEFAULT 1\<close>:
  the nullable 32-bit \<open>version\<close> and the other columns as one value. A table is keyed
  by its primary key \<open>id\<close>, which no update changes here.
\<close>

type_synonym int4 = "32 word"

record 'a versioned =
  version :: "int4 option"
  columns :: 'a

type_synonym 'a table = "uuid \<Rightarrow> 'a versioned option"

definition COALESCE :: "'a option \<Rightarrow> 'a \<Rightarrow> 'a" where
  "COALESCE a b = (case a of None \<Rightarrow> b | Some x \<Rightarrow> x)"

text \<open>
  The trigger function, run \<open>BEFORE UPDATE\<close> for each row. \<open>INTEGER\<close> addition
  does not wrap in PostgreSQL: past 2147483647 it raises \<open>integer out of range\<close>
  and the statement is aborted.
\<close>

definition increment_version :: "'a versioned \<Rightarrow> 'a versioned \<Rightarrow> pg_error + 'a versioned" where
  "increment_version OLD NEW =
     (if COALESCE (version OLD) 0 = 2147483647 then Inl numeric_value_out_of_range
      else Inr (NEW\<lparr>version := Some (COALESCE (version OLD) 0 + 1)\<rparr>))"

subsection \<open>Row level security\<close>

text \<open>
  The client's statements run with row level security. The caller is the row of
  \<open>profiles\<close> with \<open>id = auth.uid()\<close>, \<open>None\<close> when there is none (or nobody is
  signed in); the helper functions of the policies read these columns of it.
\<close>

datatype staff_role = admin | management | scheduler | sales | onboarding | technician

record profile =
  p_staff_role :: "staff_role option"
  p_is_staff :: "bool option"
  p_is_active :: "bool option"
  p_company_id :: "uuid option"

type_synonym caller = "profile option"

definition is_staff :: "caller \<Rightarrow> bool" where
  "is_staff c = (case c of None \<Rightarrow> False
     | Some p \<Rightarrow> p_is_staff p = Some True \<and> p_is_active p = Some True)"

definition get_staff_role :: "caller \<Rightarrow> staff_role option" where
  "get_staff_role c = (case c of None \<Rightarrow> None | Some p \<Rightarrow> p_staff_role p)"

definition belongs_to_company :: "caller \<Rightarrow> uuid \<Rightarrow> bool" where
  "belongs_to_company c company_uuid = (case c of None \<Rightarrow> False
     | Some p \<Rightarrow> p_company_id p = Some company_uuid \<and> p_is_active p = Some True)"

text \<open>\<open>get_staff_role() IN (...)\<close>: not true when the role is \<open>NULL\<close>.\<close>

definition role_in :: "caller \<Rightarrow> staff_role list \<Rightarrow> bool" where
  "role_in c roles = (case get_staff_role c of None \<Rightarrow> False | Some r \<Rightarrow> r \<in> set roles)"

text \<open>
  What the schema declares for a table and an \<open>UPDATE\<close> has to pass: the \<open>SELECT\<close>
  policies (one of them must hold) and the \<open>UPDATE\<close> policy, each for a caller, the
  row's \<open>id\<close> and the row, and the constraints on the columns, which give the SQLSTATE
  of the one a row violates. None of the six tables has a \<open>WITH CHECK\<close> on its
  \<open>UPDATE\<close> policy, so \<open>USING\<close> is also the check of the new row.
\<close>

record 'a table_schema =
  select_using :: "caller \<Rightarrow> uuid \<Rightarrow> 'a versioned \<Rightarrow> bool"
  update_using :: "caller \<Rightarrow> uuid \<Rightarrow> 'a versioned \<Rightarrow> bool"
  violated :: "'a versioned \<Rightarrow> string option"

text \<open>
  The table \<open>companies\<close>, a row carrying its \<open>NOT NULL\<close> \<open>name\<close>: the policies
  "Staff view all companies", "Clients view own company" and
  "Authorized staff update companies".
\<close>

definition companies_schema :: "string table_schema" where
  "companies_schema =
     \<lparr>select_using = (\<lambda>c i r. is_staff c \<or> belongs_to_company c i),
      update_using = (\<lambda>c i r. role_in c [admin, management, sales]),
      violated = (\<lambda>r. None)\<rparr>"

subsection \<open>The update statement\<close>

text \<open>
  What the client gets back from
  \<open>supabase.from(table).update(updates).eq('id', id) ... .select().single()\<close>:
  an error with its code, or the one updated row. \<open>updates\<close>, the \<open>SET\<close> clause,
  is a function from the old row to the new one; \<open>filters\<close> are the further
  \<open>.eq\<close> conditions. The statement reaches only a row that the caller may select and
  update; no row reached is the error \<open>PGRST116\<close> of \<open>.single()\<close>. After the
  trigger, the new row must pass the policies again (SQLSTATE 42501 otherwise) and the
  constraints. An error leaves the table unchanged.
\<close>

datatype 'a response = Failed string | Data 'a

definition sqlstate :: "pg_error \<Rightarrow> string" where
  "sqlstate e = (case e of not_null_violation \<Rightarrow> ''23502'' | unique_violation \<Rightarrow> ''23505''
     | numeric_value_out_of_range \<Rightarrow> ''22003'')"

definition update_single ::
  "'a table_schema \<Rightarrow> caller \<Rightarrow> 'a table \<Rightarrow> uuid \<Rightarrow> ('a versioned \<Rightarrow> bool option)
     \<Rightarrow> ('a versioned \<Rightarrow> 'a versioned) \<Rightarrow> 'a versioned response \<times> 'a table" where
  "update_single sch c tbl i filters updates =
     (case tbl i of
        None \<Rightarrow> (Failed ''PGRST116'', tbl)
      | Some OLD \<Rightarrow>
          if select_using sch c i OLD \<and> update_using sch c i OLD \<and> is_true (filters OLD) then
            (case increment_version OLD (updates OLD) of
               Inl e \<Rightarrow> (Failed (sqlstate e), tbl)
             | Inr NEW \<Rightarrow>
                 if \<not> (update_using sch c i NEW \<and> select_using sch c i NEW)
                 then (Failed ''42501'', tbl)
                 else (case violated sch NEW of
                         Some code \<Rightarrow> (Failed code, tbl)
                       | None \<Rightarrow> (Data NEW, tbl(i := Some NEW))))
          else (Failed ''PGRST116'', tbl))"

text \<open>What a client function throws: \<open>new Error(message)\<close>, or the error object
  of the response.\<close>

datatype exception = Error string | PostgrestError string

text \<open>
  \<open>expectedVersion\<close> is a JavaScript number with an integral value. It goes into the
  request as text, in digits below \<open>10^21\<close> and in exponent notation from there, and
  PostgreSQL casts it to \<open>INTEGER\<close> for the comparison: a value outside the 32 bits
  fails the cast (22003, or 22P02 for the exponent notation) whatever the table holds.
\<close>

definition updateWithVersionCheck ::
  "bool \<Rightarrow> 'a table_schema \<Rightarrow> caller \<Rightarrow> 'a table \<Rightarrow> uuid \<Rightarrow> ('a versioned \<Rightarrow> 'a versioned)
     \<Rightarrow> int \<Rightarrow> (exception + 'a versioned) \<times> 'a table" where
  "updateWithVersionCheck supabase sch c tbl entityId updates expectedVersion =
     (if \<not> supabase then (Inl (Error ''Supabase not configured''), tbl)
      else if expectedVersion < - 2147483648 \<or> 2147483647 < expectedVersion then
        (Inl (PostgrestError
                (if \<bar>expectedVersion\<bar> < 10 ^ 21 then ''22003'' else ''22P02'')), tbl)
      else
        (case update_single sch c tbl entityId
                (\<lambda>r. sql_eq (map_option sint (version r)) (Some expectedVersion)) updates of
           (Failed code, tbl') \<Rightarrow>
             if code = ''PGRST116'' then
               (Inl (Error ''This record has been modified by another user. Please refresh and try again.''), tbl')
             else (Inl (PostgrestError code), tbl')
         | (Data data, tbl') \<Rightarrow> (Inr data, tbl')))"

text \<open>The \<open>mutationFn\<close> of \<open>useUpdateCompany\<close>, on the table \<open>companies\<close>, whose
  schema is \<open>sch\<close>.\<close>

definition useUpdateCompany ::
  "bool \<Rightarrow> 'a table_schema \<Rightarrow> caller \<Rightarrow> 'a table \<Rightarrow> uuid \<Rightarrow> ('a versioned \<Rightarrow> 'a versioned)
     \<Rightarrow> (exception + 'a versioned) \<times> 'a table" where
  "useUpdateCompany supabase sch c companies i data =
     (if \<not> supabase then (Inl (Error ''Supabase not configured''), companies)
      else
        (case update_single sch c companies i (\<lambda>r. Some True) data of
           (Failed code, tbl') \<Rightarrow> (Inl (PostgrestError code), tbl')
         | (Data company, tbl') \<Rightarrow> (Inr company, tbl')))"

text \<open>A sequence of update calls on one row, by either function and by any callers; the
  result counts the calls that succeeded.\<close>

datatype 'a update_call =
    Versioned caller "'a versioned \<Rightarrow> 'a versioned" int
  | Unversioned caller "'a versioned \<Rightarrow> 'a versioned"

definition call_update ::
  "'a table_schema \<Rightarrow> 'a table \<Rightarrow> uuid \<Rightarrow> 'a update_call
     \<Rightarrow> (exception + 'a versioned) \<times> 'a table" where
  "call_update sch tbl i call =
     (case call of
        Versioned c updates expectedVersion \<Rightarrow>
          updateWithVersionCheck True sch c tbl i updates expectedVersion
      | Unversioned c updates \<Rightarrow> useUpdateCompany True sch c tbl i updates)"

fun run_updates ::
  "'a table_schema \<Rightarrow> 'a table \<Rightarrow> uuid \<Rightarrow> 'a update_call list \<Rightarrow> nat \<times> 'a table" where
  "run_updates sch tbl i [] = (0, tbl)"
| "run_updates sch tbl i (call # calls) =
     (case call_update sch tbl i call of
        (Inl e, tbl') \<Rightarrow> run_updates sch tbl' i calls
      | (Inr row, tbl') \<Rightarrow>
          (case run_updates sch tbl' i calls of (n, tbl'') \<Rightarrow> (Suc n, tbl'')))"

section \<open>The client: lock service and edit-mode hook\<close>

text \<open>
  The outcome of \<open>supabase.rpc('acquire_lock', ...)\<close> as the client sees it:
  \<open>error\<close> set (with its message) when the call did not go through, \<open>data\<close>
  otherwise.
\<close>

datatype 'a rpc = RpcError string | RpcData 'a

definition acquireLock :: "bool \<Rightarrow> LockResult rpc \<Rightarrow> exception + LockResult" where
  "acquireLock supabase response =
     (if \<not> supabase then Inl (Error ''Supabase not configured'')
      else (case response of
              RpcError message \<Rightarrow> Inr (no_result\<lparr>success := False, error := Some message\<rparr>)
            | RpcData data \<Rightarrow> Inr data))"

text \<open>The state of \<open>useEditMode\<close> with the \<open>useRecordLock\<close> it holds; \<open>alerts\<close>
  collects the messages shown with \<open>alert\<close>.\<close>

record 'a edit_mode =
  lockInfo :: "LockInfo option"
  isEditing :: bool
  editData :: "'a option"
  alerts :: "string list"

definition isLockedByMe :: "'a edit_mode \<Rightarrow> bool" where
  "isLockedByMe s = (case lockInfo s of None \<Rightarrow> False
     | Some info \<Rightarrow> (case is_mine info of None \<Rightarrow> False | Some b \<Rightarrow> b))"

text \<open>The \<open>onLockLost\<close> callback \<open>useEditMode\<close> passes to \<open>useRecordLock\<close>.\<close>

definition onLockLost :: "'a edit_mode \<Rightarrow> 'a edit_mode" where
  "onLockLost s =
     (if isEditing s then
        s\<lparr>isEditing := False, editData := None,
          alerts := alerts s @
            [''Your editing session was interrupted. Another user is now editing this record.'']\<rparr>
      else s)"

text \<open>The callback \<open>useRecordLock\<close> runs every \<open>extendInterval\<close> seconds. An
  exception thrown inside it is a rejected promise nobody handles: the state stays.\<close>

definition extend_tick :: "bool \<Rightarrow> LockResult rpc \<Rightarrow> 'a edit_mode \<Rightarrow> 'a edit_mode" where
  "extend_tick supabase response s =
     (if isLockedByMe s then
        (case acquireLock supabase response of
           Inl e \<Rightarrow> s
         | Inr result \<Rightarrow>
             if \<not> success result then
               onLockLost (s\<lparr>lockInfo := Some (not_locked\<lparr>locked := True, is_mine := Some False,
                   info_locked_by := res_locked_by result,
                   info_locked_by_name := res_locked_by_name result\<rparr>)\<rparr>)
             else s)
      else s)"

section \<open>Example data\<close>

definition staff :: "uuid \<Rightarrow> string option" where
  "staff = (\<lambda>u. if u = 101 then Some ''Alice'' else if u = 102 then Some ''Bob'' else None)"

definition as_user :: "uuid \<Rightarrow> timestamptz \<Rightarrow> uuid \<Rightarrow> pg_context" where
  "as_user u t i = \<lparr>auth_uid = Some u, now = t, uuid_generate_v4 = i\<rparr>"

definition no_locks :: db where
  "no_locks = \<lparr>profiles = staff, record_locks = [], user_presence = []\<rparr>"

definition alice_lock :: record_lock where
  "alice_lock = \<lparr>lock_id = 10, entity_type = ''job'', entity_id = 123, locked_by = 101,
     locked_by_name = ''Alice'', locked_at = Some 0, expires_at = 900000000\<rparr>"

definition alice_holds :: db where
  "alice_holds = \<lparr>profiles = staff, record_locks = [alice_lock], user_presence = []\<rparr>"

text \<open>Bob's lock on job 124, and the table with both locks.\<close>

definition bob_lock :: record_lock where
  "bob_lock = \<lparr>lock_id = 11, entity_type = ''job'', entity_id = 124, locked_by = 102,
     locked_by_name = ''Bob'', locked_at = Some 60000000, expires_at = 960000000\<rparr>"

definition two_locks :: db where
  "two_locks = \<lparr>profiles = staff, record_locks = [alice_lock, bob_lock], user_presence = []\<rparr>"

text \<open>Carol joins; nobody holds a lock, or Alice still holds hers.\<close>

definition crew :: "uuid \<Rightarrow> string option" where
  "crew = (\<lambda>u. if u = 103 then Some ''Carol'' else staff u)"

definition crew_no_locks :: db where
  "crew_no_locks = \<lparr>profiles = crew, record_locks = [], user_presence = []\<rparr>"

definition crew_alice_holds :: db where
  "crew_alice_holds = \<lparr>profiles = crew, record_locks = [alice_lock], user_presence = []\<rparr>"

text \<open>Alice (editing), Bob (seen 30 seconds ago) and Carol (seen 3 minutes ago) on job 123,
  Dave on a list page, at minute 10.\<close>

definition job_viewers :: db where
  "job_viewers = \<lparr>profiles = staff, record_locks = [alice_lock], user_presence =
     [\<lparr>up_id = 1, up_user_id = 101, up_user_name = ''Alice'', up_current_page = Some ''/job/123'',
       up_entity_type = Some ''job'', up_entity_id = Some 123, up_status = Some ''editing'',
       up_last_seen = Some 590000000\<rparr>,
      \<lparr>up_id = 2, up_user_id = 102, up_user_name = ''Bob'', up_current_page = Some ''/job/123'',
       up_entity_type = Some ''job'', up_entity_id = Some 123, up_status = Some ''online'',
       up_last_seen = Some 570000000\<rparr>,
      \<lparr>up_id = 3, up_user_id = 103, up_user_name = ''Carol'', up_current_page = Some ''/job/123'',
       up_entity_type = Some ''job'', up_entity_id = Some 123, up_status = Some ''idle'',
       up_last_seen = Some 420000000\<rparr>,
      \<lparr>up_id = 4, up_user_id = 104, up_user_name = ''Dave'', up_current_page = Some ''/jobs'',
       up_entity_type = None, up_entity_id = None, up_status = Some ''online'',
       up_last_seen = Some 599000000\<rparr>]\<rparr>"

text \<open>A table \<open>companies\<close> with one row, at version 4 and at the largest
  \<open>INTEGER\<close>, an update of the name, and two callers: an administrator, and a
  technician, whom the update policy of \<open>companies\<close> leaves out.\<close>

definition companies_v4 :: "string table" where
  "companies_v4 = (\<lambda>i. if i = 42 then Some \<lparr>version = Some 4, columns = ''Acme''\<rparr> else None)"

definition companies_max :: "string table" where
  "companies_max = (\<lambda>i. if i = 42 then Some \<lparr>version = Some 2147483647, columns = ''Acme''\<rparr> else None)"

definition rename :: "string \<Rightarrow> string versioned \<Rightarrow> string versioned" where
  "rename name r = r\<lparr>columns := name\<rparr>"

definition administrator :: caller where
  "administrator = Some \<lparr>p_staff_role = Some admin, p_is_staff = Some True,
     p_is_active = Some True, p_company_id = None\<rparr>"

definition a_technician :: caller where
  "a_technician = Some \<lparr>p_staff_role = Some technician, p_is_staff = Some True,
     p_is_active = Some True, p_company_id = None\<rparr>"

text \<open>An edit session that holds the lock, with unsaved edits.\<close>

definition editing :: "string edit_mode" where
  "editing = \<lparr>lockInfo = Some (not_locked\<lparr>locked := True, is_mine := Some True,
       info_expires_at := Some 900000000\<rparr>),
     isEditing = True, editData = Some ''draft'', alerts = []\<rparr>"


section \<open>Properties of \<open>acquire_lock\<close>\<close>

lemma select_lock_None_iff:
  "select_lock locks et eid = None \<longleftrightarrow>
   \<not> list_ex (\<lambda>r. entity_type r = et \<and> entity_id r = eid) locks"
  by (auto simp: select_lock_def find_None_iff list_ex_iff)

lemma locks_unique_same_key:
  assumes "locks_unique locks" "r \<in> set locks" "r' \<in> set locks"
    "entity_type r = entity_type r'" "entity_id r = entity_id r'"
  shows "r = r'"
proof -
  from assms(1) have "inj_on (\<lambda>r. (entity_type r, entity_id r)) (set locks)"
    by (simp add: locks_unique_def distinct_map)
  with assms(2-5) show ?thesis by (auto dest: inj_onD)
qed

text \<open>In a table that satisfies its constraints the \<open>SELECT\<close> finds the row of the
  identity.\<close>

lemma select_lock_the_row:
  assumes "locks_unique locks" "r \<in> set locks" "entity_type r = et" "entity_id r = eid"
  shows "select_lock locks et eid = Some r"
proof (cases "select_lock locks et eid")
  case None
  with assms(2-4) show ?thesis by (auto simp: select_lock_None_iff list_ex_iff)
next
  case (Some x)
  then have "x \<in> set locks" "entity_type x = et" "entity_id x = eid"
    by (auto simp: select_lock_def find_Some_iff)
  with assms have "x = r" by (intro locks_unique_same_key [OF assms(1)]) auto
  with Some show ?thesis by simp
qed

lemma update_where_id_unique:
  assumes "locks_unique locks" and "r \<in> set locks"
  shows "update_where_id (lock_id r) f locks = map (\<lambda>x. if x = r then f r else x) locks"
proof -
  from assms(1) have inj: "inj_on lock_id (set locks)"
    by (simp add: locks_unique_def distinct_map)
  have "(if lock_id x = lock_id r then f x else x) = (if x = r then f r else x)"
    if "x \<in> set locks" for x
    using inj_onD [OF inj _ that assms(2)] by auto
  then show ?thesis by (simp add: update_where_id_def)
qed


lemma acquire_lock_extend:
  assumes "auth_uid ctx = Some u" "select_lock (record_locks d) et eid = Some r"
    "locked_by r = u"
  shows "acquire_lock d ctx et eid mins =
     Inr (no_result\<lparr>success := True, res_lock_id := Some (lock_id r),
            res_expires_at := Some (now ctx + minutes mins), extended := Some True\<rparr>,
          d\<lparr>record_locks := update_where_id (lock_id r)
             (\<lambda>r. r\<lparr>expires_at := now ctx + minutes mins, locked_at := Some (now ctx)\<rparr>)
             (record_locks d)\<rparr>)"
  using assms by (simp add: acquire_lock_def Let_def)

lemma acquire_lock_take_over:
  assumes "auth_uid ctx = Some u" "select_lock (record_locks d) et eid = Some r"
    "locked_by r \<noteq> u" "expires_at r < now ctx" "profiles d u = Some nm"
  shows "acquire_lock d ctx et eid mins =
     Inr (no_result\<lparr>success := True, res_lock_id := Some (lock_id r),
            res_expires_at := Some (now ctx + minutes mins), took_over := Some True\<rparr>,
          d\<lparr>record_locks := update_where_id (lock_id r)
             (\<lambda>r. r\<lparr>locked_by := u, locked_by_name := nm, locked_at := Some (now ctx),
                     expires_at := now ctx + minutes mins\<rparr>)
             (record_locks d)\<rparr>)"
  using assms by (simp add: acquire_lock_def Let_def)

lemma acquire_lock_deny:
  assumes "auth_uid ctx = Some u" "select_lock (record_locks d) et eid = Some r"
    "locked_by r \<noteq> u" "\<not> expires_at r < now ctx"
  shows "acquire_lock d ctx et eid mins =
     Inr (no_result\<lparr>success := False, error := Some ''Record is being edited'',
            res_locked_by := Some (locked_by r),
            res_locked_by_name := Some (locked_by_name r),
            res_locked_at := locked_at r,
            res_expires_at := Some (expires_at r)\<rparr>, d)"
  using assms by (simp add: acquire_lock_def Let_def)


lemma acquire_lock_own_row:
  assumes "auth_uid ctx = Some u" and "locks_unique (record_locks d)"
    and "r \<in> set (record_locks d)" "entity_type r = et" "entity_id r = eid"
    and "locked_by r = u"
  shows "acquire_lock d ctx et eid mins =
     Inr (\<lparr>success = True, res_lock_id = Some (lock_id r),
           res_expires_at = Some (now ctx + mins * 60000000),
           extended = Some True, took_over = None, created = None, error = None,
           res_locked_by = None, res_locked_by_name = None, res_locked_at = None\<rparr>,
          d\<lparr>record_locks := map (\<lambda>x. if x = r
               then r\<lparr>locked_at := Some (now ctx), expires_at := now ctx + mins * 60000000\<rparr>
               else x) (record_locks d)\<rparr>)"
proof -
  have "select_lock (record_locks d) et eid = Some r"
    using assms(2-5) by (rule select_lock_the_row)
  from acquire_lock_extend [OF assms(1) this assms(6)]
  show ?thesis
    by (simp add: no_result_def minutes_def update_where_id_unique [OF assms(2,3)])
qed

lemma acquire_lock_expired_row:
  assumes "auth_uid ctx = Some u" and "locks_unique (record_locks d)"
    and "r \<in> set (record_locks d)" "entity_type r = et" "entity_id r = eid"
    and "locked_by r \<noteq> u" "expires_at r < now ctx" "profiles d u = Some nm"
  shows "acquire_lock d ctx et eid mins =
     Inr (\<lparr>success = True, res_lock_id = Some (lock_id r),
           res_expires_at = Some (now ctx + mins * 60000000),
           extended = None, took_over = Some True, created = None, error = None,
           res_locked_by = None, res_locked_by_name = None, res_locked_at = None\<rparr>,
          d\<lparr>record_locks := map (\<lambda>x. if x = r
               then r\<lparr>locked_by := u, locked_by_name := nm, locked_at := Some (now ctx),
                      expires_at := now ctx + mins * 60000000\<rparr>
               else x) (record_locks d)\<rparr>)"
proof -
  have "select_lock (record_locks d) et eid = Some r"
    using assms(2-5) by (rule select_lock_the_row)
  from acquire_lock_take_over [OF assms(1) this assms(6,7,8)]
  show ?thesis
    by (simp add: no_result_def minutes_def update_where_id_unique [OF assms(2,3)])
qed

lemma acquire_lock_live_row:
  assumes "auth_uid ctx = Some u" and "locks_unique (record_locks d)"
    and "r \<in> set (record_locks d)" "entity_type r = et" "entity_id r = eid"
    and "locked_by r \<noteq> u" "now ctx \<le> expires_at r"
  shows "acquire_lock d ctx et eid mins =
     Inr (\<lparr>success = False, res_lock_id = None, res_expires_at = Some (expires_at r),
           extended = None, took_over = None, created = None,
           error = Some ''Record is being edited'',
           res_locked_by = Some (locked_by r), res_locked_by_name = Some (locked_by_name r),
           res_locked_at = locked_at r\<rparr>, d)"
proof -
  have "select_lock (record_locks d) et eid = Some r"
    using assms(2-5) by (rule select_lock_the_row)
  moreover from assms(7) have "\<not> expires_at r < now ctx" by simp
  ultimately show ?thesis
    using assms(1,6) by (simp add: acquire_lock_deny no_result_def)
qed


lemma two_locks_facts:
  "record_locks two_locks = [alice_lock, bob_lock]"
  "locks_unique (record_locks two_locks)"
  "bob_lock \<in> set (record_locks two_locks)"
  "entity_type bob_lock = ''job''" "entity_id bob_lock = 124" "locked_by bob_lock = 102"
  "expires_at bob_lock = 960000000" "lock_id bob_lock = 11"
  "locked_by_name bob_lock = ''Bob''" "locked_at bob_lock = Some 60000000"
  "profiles two_locks 101 = Some ''Alice''" "alice_lock \<noteq> bob_lock"
  by (simp_all add: two_locks_def locks_unique_def alice_lock_def bob_lock_def staff_def)

lemma as_user_simps:
  "auth_uid (as_user u t i) = Some u" "now (as_user u t i) = t"
  "uuid_generate_v4 (as_user u t i) = i"
  by (simp_all add: as_user_def)


text \<open>
  Claim C10. When the row of the identity is held by the caller, the result is
  \<open>extended\<close> with \<open>success\<close> and no other flag, and the row gets
  \<open>locked_at = now\<close> and \<open>expires_at = now + duration\<close>, whatever its
  \<open>expires_at\<close> was: nothing in the result or in the new table depends on it, so a
  lock that expired and was not swept is renewed for its former holder. The row is named
  in the table itself, which satisfies its constraints.
\<close>

theorem acquire_lock_same_holder_extends:
  assumes "auth_uid ctx = Some u"
    and "locks_unique (record_locks d)"
    and "r \<in> set (record_locks d)" and "entity_type r = et" and "entity_id r = eid"
    and "locked_by r = u"
  shows "acquire_lock d ctx et eid mins =
     Inr (\<lparr>success = True, res_lock_id = Some (lock_id r),
           res_expires_at = Some (now ctx + mins * 60000000),
           extended = Some True, took_over = None, created = None, error = None,
           res_locked_by = None, res_locked_by_name = None, res_locked_at = None\<rparr>,
          d\<lparr>record_locks := map (\<lambda>x. if x = r
               then r\<lparr>locked_at := Some (now ctx), expires_at := now ctx + mins * 60000000\<rparr>
               else x) (record_locks d)\<rparr>)"
  using assms by (rule acquire_lock_own_row)

text \<open>Bob re-acquires job 124 long after his lock expired.\<close>

theorem acquire_lock_same_holder_extends_witness:
  "record_locks two_locks = [alice_lock, bob_lock]
   \<and> entity_type bob_lock = ''job'' \<and> entity_id bob_lock = 124 \<and> locked_by bob_lock = 102
   \<and> expires_at bob_lock < now (as_user 102 5000000000 12)
   \<and> acquire_lock two_locks (as_user 102 5000000000 12) ''job'' 124 15 =
       Inr (\<lparr>success = True, res_lock_id = Some 11, res_expires_at = Some 5900000000,
             extended = Some True, took_over = None, created = None, error = None,
             res_locked_by = None, res_locked_by_name = None, res_locked_at = None\<rparr>,
            two_locks\<lparr>record_locks := [alice_lock,
               bob_lock\<lparr>locked_at := Some 5000000000, expires_at := 5900000000\<rparr>]\<rparr>)"
  using acquire_lock_same_holder_extends [OF as_user_simps(1) two_locks_facts(2,3,4,5,6),
      of 5000000000 12 15] two_locks_facts
  by (simp add: as_user_simps)

text \<open>
  Claim C2 as stated fails at the instant \<open>expires_at = now\<close>: Alice's call on job 124
  at the instant Bob's lock expires is still refused, because the takeover branch tests
  \<open>expires_at < NOW()\<close>.
\<close>

theorem acquire_lock_at_expiry_instant_denied:
  "record_locks two_locks = [alice_lock, bob_lock]
   \<and> entity_type bob_lock = ''job'' \<and> entity_id bob_lock = 124 \<and> locked_by bob_lock = 102
   \<and> expires_at bob_lock = now (as_user 101 960000000 12)
   \<and> profiles two_locks 101 = Some ''Alice''
   \<and> acquire_lock two_locks (as_user 101 960000000 12) ''job'' 124 15 =
       Inr (\<lparr>success = False, res_lock_id = None, res_expires_at = Some 960000000,
             extended = None, took_over = None, created = None,
             error = Some ''Record is being edited'',
             res_locked_by = Some 102, res_locked_by_name = Some ''Bob'',
             res_locked_at = Some 60000000\<rparr>, two_locks)"
  by (simp add: acquire_lock_def select_lock_def two_locks_def alice_lock_def bob_lock_def
      as_user_def staff_def Let_def no_result_def)

text \<open>
  Claim C2, amended. For a lock held by another principal, in a table that satisfies its
  constraints and for a caller with a row in \<open>profiles\<close>: \<open>acquire_lock\<close> refuses,
  with the holder's data and no change to the database, at every instant with
  \<open>now \<le> expires_at\<close>, and takes the lock over, changing that row only, at every
  instant with \<open>expires_at < now\<close>. There is no third outcome.
\<close>

theorem acquire_lock_other_holder:
  assumes "auth_uid ctx = Some u"
    and "locks_unique (record_locks d)"
    and "r \<in> set (record_locks d)" and "entity_type r = et" and "entity_id r = eid"
    and "locked_by r \<noteq> u"
    and "profiles d u = Some nm"
  shows "acquire_lock d ctx et eid mins =
     (if now ctx \<le> expires_at r
      then Inr (\<lparr>success = False, res_lock_id = None, res_expires_at = Some (expires_at r),
                 extended = None, took_over = None, created = None,
                 error = Some ''Record is being edited'',
                 res_locked_by = Some (locked_by r),
                 res_locked_by_name = Some (locked_by_name r),
                 res_locked_at = locked_at r\<rparr>, d)
      else Inr (\<lparr>success = True, res_lock_id = Some (lock_id r),
                 res_expires_at = Some (now ctx + mins * 60000000),
                 extended = None, took_over = Some True, created = None, error = None,
                 res_locked_by = None, res_locked_by_name = None, res_locked_at = None\<rparr>,
                d\<lparr>record_locks := map (\<lambda>x. if x = r
                     then r\<lparr>locked_by := u, locked_by_name := nm,
                            locked_at := Some (now ctx),
                            expires_at := now ctx + mins * 60000000\<rparr>
                     else x) (record_locks d)\<rparr>))"
proof (cases "now ctx \<le> expires_at r")
  case True
  with acquire_lock_live_row [OF assms(1-6) True] show ?thesis by simp
next
  case False
  then have "expires_at r < now ctx" by simp
  from acquire_lock_expired_row [OF assms(1-6) this assms(7)] False show ?thesis by simp
qed

text \<open>Alice's call on job 124 at the instant Bob's lock expires, and one microsecond
  later.\<close>

theorem acquire_lock_other_holder_witness:
  "record_locks two_locks = [alice_lock, bob_lock]
   \<and> entity_type bob_lock = ''job'' \<and> entity_id bob_lock = 124 \<and> locked_by bob_lock = 102
   \<and> expires_at bob_lock = 960000000 \<and> profiles two_locks 101 = Some ''Alice''
   \<and> acquire_lock two_locks (as_user 101 960000000 12) ''job'' 124 15 =
       Inr (\<lparr>success = False, res_lock_id = None, res_expires_at = Some 960000000,
             extended = None, took_over = None, created = None,
             error = Some ''Record is being edited'',
             res_locked_by = Some 102, res_locked_by_name = Some ''Bob'',
             res_locked_at = Some 60000000\<rparr>, two_locks)
   \<and> acquire_lock two_locks (as_user 101 960000001 12) ''job'' 124 15 =
       Inr (\<lparr>success = True, res_lock_id = Some 11, res_expires_at = Some 1860000001,
             extended = None, took_over = Some True, created = None, error = None,
             res_locked_by = None, res_locked_by_name = None, res_locked_at = None\<rparr>,
            two_locks\<lparr>record_locks := [alice_lock,
               bob_lock\<lparr>locked_by := 101, locked_by_name := ''Alice'',
                 locked_at := Some 960000001, expires_at := 1860000001\<rparr>]\<rparr>)"
proof -
  have other: "locked_by bob_lock \<noteq> 101" by (simp add: bob_lock_def)
  note t = acquire_lock_other_holder [OF as_user_simps(1) two_locks_facts(2,3,4,5) other
      two_locks_facts(11)]
  from t [of 960000000 12 15] t [of 960000001 12 15] two_locks_facts
  show ?thesis by (simp add: as_user_simps)
qed

section \<open>The lock table keeps one row per identity\<close>

lemma distinct_map_filter_le_one:
  "distinct (map f xs) \<Longrightarrow> length (filter (\<lambda>x. f x = k \<and> P x) xs) \<le> 1"
proof (induction xs)
  case Nil
  then show ?case by simp
next
  case (Cons x xs)
  show ?case
  proof (cases "f x = k")
    case True
    with Cons.prems have "k \<notin> f ` set xs" by auto
    then have "filter (\<lambda>x. f x = k \<and> P x) xs = []"
      by (auto simp: filter_empty_conv)
    then show ?thesis by simp
  next
    case False
    with Cons show ?thesis by simp
  qed
qed

lemma locks_unique_update_where_id:
  assumes "locks_unique locks"
    and "\<And>r. lock_id (f r) = lock_id r"
    and "\<And>r. entity_type (f r) = entity_type r" and "\<And>r. entity_id (f r) = entity_id r"
  shows "locks_unique (update_where_id i f locks)"
proof -
  have "map lock_id (update_where_id i f locks) = map lock_id locks"
    by (simp add: update_where_id_def assms(2))
  moreover have "map (\<lambda>r. (entity_type r, entity_id r)) (update_where_id i f locks)
      = map (\<lambda>r. (entity_type r, entity_id r)) locks"
    by (simp add: update_where_id_def assms(3,4))
  ultimately show ?thesis using assms(1) by (simp add: locks_unique_def)
qed

lemma locks_unique_filter: "locks_unique locks \<Longrightarrow> locks_unique (filter P locks)"
  by (simp add: locks_unique_def distinct_map_filter)

lemma locks_unique_insert_lock:
  assumes "locks_unique locks" and "insert_lock row locks = Inr locks'"
  shows "locks_unique locks'"
proof -
  from assms(2) have fresh: "\<forall>r\<in>set locks. lock_id r \<noteq> lock_id row \<and>
      (entity_type r, entity_id r) \<noteq> (entity_type row, entity_id row)"
    and eq: "locks' = locks @ [row]"
    by (auto simp: insert_lock_def list_ex_iff split: if_splits)
  from fresh have "lock_id row \<notin> lock_id ` set locks"
    and "(entity_type row, entity_id row) \<notin> (\<lambda>r. (entity_type r, entity_id r)) ` set locks"
    by force+
  with assms(1) show ?thesis by (simp add: eq locks_unique_def)
qed

lemma acquire_lock_preserves_unique:
  assumes "locks_unique (record_locks d)"
    and "acquire_lock d ctx et eid mins = Inr (res, d')"
  shows "locks_unique (record_locks d')"
  using assms
  by (auto simp: acquire_lock_def Let_def locks_unique_update_where_id
      split: option.splits if_splits sum.splits dest: locks_unique_insert_lock)

lemma release_lock_preserves_unique:
  assumes "locks_unique (record_locks d)" and "release_lock d ctx et eid = (b, d')"
  shows "locks_unique (record_locks d')"
  using assms
  by (auto simp: release_lock_def Let_def locks_unique_filter split: option.splits)

lemma cleanup_expired_locks_preserves_unique:
  assumes "locks_unique (record_locks d)" and "cleanup_expired_locks d ctx = (n, d')"
  shows "locks_unique (record_locks d')"
  using assms by (auto simp: cleanup_expired_locks_def locks_unique_filter)

lemma reachable_locks_unique: "reachable d \<Longrightarrow> locks_unique (record_locks d)"
proof (induction rule: reachable.induct)
  case (initial d)
  then show ?case by (simp add: locks_unique_def)
next
  case (acquire d ctx p_entity_type p_entity_id p_minutes res d')
  then show ?case by (blast intro: acquire_lock_preserves_unique)
next
  case (release d ctx p_entity_type p_entity_id b d')
  then show ?case by (blast intro: release_lock_preserves_unique)
next
  case (cleanup d ctx n d')
  then show ?case by (blast intro: cleanup_expired_locks_preserves_unique)
qed

lemma check_lock_is_mine:
  assumes "is_mine (check_lock d ctx et eid) = Some True"
  shows "\<exists>r. find (\<lambda>r. entity_type r = et \<and> entity_id r = eid \<and> expires_at r > now ctx)
            (record_locks d) = Some r \<and> auth_uid ctx = Some (locked_by r)"
  using assms
  by (auto simp: check_lock_def not_locked_def split: option.splits)

lemma locks_unique_filter_le_one:
  assumes "locks_unique locks"
  shows "length (filter (\<lambda>r. entity_type r = et \<and> entity_id r = eid \<and> P r) locks) \<le> 1"
proof -
  from assms have "distinct (map (\<lambda>r. (entity_type r, entity_id r)) locks)"
    by (simp add: locks_unique_def)
  from distinct_map_filter_le_one [OF this, of "(et, eid)" P] show ?thesis
    by (simp add: conj_assoc)
qed

text \<open>
  Claim C3. In every state of the lock table that \<open>acquire_lock\<close>, \<open>release_lock\<close>
  and \<open>cleanup_expired_locks\<close> can produce from an empty table, each identity
  \<open>(entity_type, entity_id)\<close> has at most one row, hence at most one row that has not
  expired at an instant \<open>t\<close>; two calls of \<open>check_lock\<close> at the same instant that
  both report \<open>is_mine = true\<close> come from the same principal; and each of the three
  functions leads to a state with the same properties.
\<close>

theorem one_lock_per_identity:
  assumes "reachable d"
  shows "length (filter (\<lambda>r. entity_type r = et \<and> entity_id r = eid) (record_locks d)) \<le> 1
    \<and> length (filter (\<lambda>r. entity_type r = et \<and> entity_id r = eid \<and> expires_at r > t)
         (record_locks d)) \<le> 1
    \<and> (now c1 = now c2 \<and> is_mine (check_lock d c1 et eid) = Some True
         \<and> is_mine (check_lock d c2 et eid) = Some True \<longrightarrow> auth_uid c1 = auth_uid c2)
    \<and> (\<forall>ctx p_entity_type p_entity_id p_minutes res d'.
         acquire_lock d ctx p_entity_type p_entity_id p_minutes = Inr (res, d') \<longrightarrow>
         reachable d' \<and> locks_unique (record_locks d'))
    \<and> (\<forall>ctx p_entity_type p_entity_id b d'.
         release_lock d ctx p_entity_type p_entity_id = (b, d') \<longrightarrow>
         reachable d' \<and> locks_unique (record_locks d'))
    \<and> (\<forall>ctx n d'. cleanup_expired_locks d ctx = (n, d') \<longrightarrow>
         reachable d' \<and> locks_unique (record_locks d'))"
proof -
  have u: "locks_unique (record_locks d)" by (rule reachable_locks_unique [OF assms])
  have a: "length (filter (\<lambda>r. entity_type r = et \<and> entity_id r = eid) (record_locks d)) \<le> 1"
    using locks_unique_filter_le_one [OF u, of et eid "\<lambda>r. True"] by simp
  have b: "length (filter (\<lambda>r. entity_type r = et \<and> entity_id r = eid \<and> expires_at r > t)
         (record_locks d)) \<le> 1"
    by (rule locks_unique_filter_le_one [OF u])
  have c: "now c1 = now c2 \<and> is_mine (check_lock d c1 et eid) = Some True
         \<and> is_mine (check_lock d c2 et eid) = Some True \<longrightarrow> auth_uid c1 = auth_uid c2"
    by (auto dest!: check_lock_is_mine)
  have d1: "\<forall>ctx p_entity_type p_entity_id p_minutes res d'.
         acquire_lock d ctx p_entity_type p_entity_id p_minutes = Inr (res, d') \<longrightarrow>
         reachable d' \<and> locks_unique (record_locks d')"
    using assms by (blast intro: reachable.acquire reachable_locks_unique)
  have d2: "\<forall>ctx p_entity_type p_entity_id b d'.
         release_lock d ctx p_entity_type p_entity_id = (b, d') \<longrightarrow>
         reachable d' \<and> locks_unique (record_locks d')"
    using assms by (blast intro: reachable.release reachable_locks_unique)
  have d3: "\<forall>ctx n d'. cleanup_expired_locks d ctx = (n, d') \<longrightarrow>
         reachable d' \<and> locks_unique (record_locks d')"
    using assms by (blast intro: reachable.cleanup reachable_locks_unique)
  from a b c d1 d2 d3 show ?thesis by blast
qed

text \<open>The state in which Alice holds the lock on job 123 is reached by her call on the
  empty table.\<close>

lemma reachable_alice_holds: "reachable alice_holds"
proof -
  have "reachable no_locks"
    by (rule reachable.initial) (simp add: no_locks_def)
  moreover have "acquire_lock no_locks (as_user 101 0 10) ''job'' 123 15 =
     Inr (no_result\<lparr>success := True, res_lock_id := Some 10,
            res_expires_at := Some 900000000, created := Some True\<rparr>, alice_holds)"
    by (simp add: acquire_lock_def no_locks_def as_user_def staff_def select_lock_def
        insert_lock_def Let_def minutes_def alice_holds_def alice_lock_def)
  ultimately show ?thesis by (rule reachable.acquire)
qed

theorem one_lock_per_identity_witness:
  "reachable alice_holds
   \<and> length (filter (\<lambda>r. entity_type r = ''job'' \<and> entity_id r = 123) (record_locks alice_holds)) \<le> 1
   \<and> length (filter (\<lambda>r. entity_type r = ''job'' \<and> entity_id r = 123 \<and> expires_at r > 60000000)
        (record_locks alice_holds)) \<le> 1
   \<and> now (as_user 101 60000000 11) = now (as_user 102 60000000 12)
   \<and> is_mine (check_lock alice_holds (as_user 101 60000000 11) ''job'' 123) = Some True
   \<and> is_mine (check_lock alice_holds (as_user 102 60000000 12) ''job'' 123) \<noteq> Some True
   \<and> (\<exists>res d'. acquire_lock alice_holds (as_user 102 900000001 12) ''job'' 123 15 = Inr (res, d')
         \<and> reachable d' \<and> locks_unique (record_locks d'))
   \<and> (\<exists>b d'. release_lock alice_holds (as_user 101 60000000 12) ''job'' 123 = (b, d')
         \<and> reachable d' \<and> locks_unique (record_locks d'))
   \<and> (\<exists>n d'. cleanup_expired_locks alice_holds (as_user 102 900000001 12) = (n, d')
         \<and> reachable d' \<and> locks_unique (record_locks d'))"
proof -
  note inv = one_lock_per_identity [OF reachable_alice_holds, of "''job''" 123 60000000
      "as_user 101 60000000 11" "as_user 102 60000000 12"]
  have mine: "is_mine (check_lock alice_holds (as_user 101 60000000 11) ''job'' 123) = Some True"
    by (simp add: check_lock_def alice_holds_def alice_lock_def as_user_def)
  have inst: "now (as_user 101 60000000 11) = now (as_user 102 60000000 12)"
    "auth_uid (as_user 101 60000000 11) \<noteq> auth_uid (as_user 102 60000000 12)"
    by (simp_all add: as_user_def)
  from inv mine inst
  have other: "is_mine (check_lock alice_holds (as_user 102 60000000 12) ''job'' 123) \<noteq> Some True"
    by blast
  obtain res d' where acq:
    "acquire_lock alice_holds (as_user 102 900000001 12) ''job'' 123 15 = Inr (res, d')"
    by (simp add: acquire_lock_def alice_holds_def alice_lock_def as_user_def staff_def
        select_lock_def Let_def)
  obtain b d'' where rel:
    "release_lock alice_holds (as_user 101 60000000 12) ''job'' 123 = (b, d'')"
    by (cases "release_lock alice_holds (as_user 101 60000000 12) ''job'' 123")
  obtain n d''' where cln:
    "cleanup_expired_locks alice_holds (as_user 102 900000001 12) = (n, d''')"
    by (cases "cleanup_expired_locks alice_holds (as_user 102 900000001 12)")
  from inv acq have "reachable d' \<and> locks_unique (record_locks d')" by blast
  moreover from inv rel have "reachable d'' \<and> locks_unique (record_locks d'')" by blast
  moreover from inv cln have "reachable d''' \<and> locks_unique (record_locks d''')" by blast
  ultimately show ?thesis
    using inv mine inst(1) other acq rel cln reachable_alice_holds by blast
qed

section \<open>Properties of \<open>release_lock\<close>\<close>

lemma release_lock_unauthenticated:
  "auth_uid ctx = None \<Longrightarrow> release_lock d ctx et eid = (False, d)"
  by (simp add: release_lock_def)

lemma release_lock_authenticated:
  "auth_uid ctx = Some u \<Longrightarrow> release_lock d ctx et eid =
     (list_ex (\<lambda>r. entity_type r = et \<and> entity_id r = eid \<and> locked_by r = u) (record_locks d),
      d\<lparr>record_locks := filter (\<lambda>r. \<not> (entity_type r = et \<and> entity_id r = eid \<and> locked_by r = u))
         (record_locks d)\<rparr>)"
  by (simp add: release_lock_def Let_def)

text \<open>
  Claim C4. \<open>release_lock\<close> deletes exactly the rows of the identity that the caller
  holds, and returns \<open>true\<close> iff there was one, that is iff the table got shorter.
  When it returns \<open>false\<close> (the caller is not the holder, there is no lock, or nobody
  is authenticated) the database is unchanged. Under the table's constraints the
  identity has no row after a successful release and the row it had otherwise. A second
  release by the same caller returns \<open>false\<close> and changes nothing.
\<close>

theorem release_lock_owner_scoped:
  assumes "release_lock d ctx et eid = (b, d')"
  shows "record_locks d' =
           filter (\<lambda>r. \<not> (entity_type r = et \<and> entity_id r = eid \<and> auth_uid ctx = Some (locked_by r)))
             (record_locks d)
       \<and> (b \<longleftrightarrow> (\<exists>r. r \<in> set (record_locks d) \<and> entity_type r = et \<and> entity_id r = eid
                     \<and> auth_uid ctx = Some (locked_by r)))
       \<and> (b \<longleftrightarrow> length (record_locks d') < length (record_locks d))
       \<and> (\<not> b \<longrightarrow> d' = d)
       \<and> (locks_unique (record_locks d) \<longrightarrow>
            select_lock (record_locks d') et eid =
              (if b then None else select_lock (record_locks d) et eid))
       \<and> release_lock d' ctx et eid = (False, d')"
proof (cases "auth_uid ctx")
  case None
  with assms have "b = False" "d' = d" by (simp_all add: release_lock_unauthenticated)
  with None show ?thesis by (simp add: release_lock_unauthenticated)
next
  case (Some u)
  let ?ours = "\<lambda>r. entity_type r = et \<and> entity_id r = eid \<and> locked_by r = u"
  from assms Some have b: "b = list_ex ?ours (record_locks d)"
    and d': "d' = d\<lparr>record_locks := filter (\<lambda>r. \<not> ?ours r) (record_locks d)\<rparr>"
    by (simp_all add: release_lock_authenticated)
  have rows: "record_locks d' = filter (\<lambda>r. \<not> ?ours r) (record_locks d)"
    by (simp add: d')
  have c1: "record_locks d' =
           filter (\<lambda>r. \<not> (entity_type r = et \<and> entity_id r = eid \<and> auth_uid ctx = Some (locked_by r)))
             (record_locks d)"
    unfolding rows using Some by (intro filter_cong) auto
  have c2: "b \<longleftrightarrow> (\<exists>r. r \<in> set (record_locks d) \<and> entity_type r = et \<and> entity_id r = eid
                     \<and> auth_uid ctx = Some (locked_by r))"
    using Some by (auto simp: b list_ex_iff)
  have c3: "b \<longleftrightarrow> length (record_locks d') < length (record_locks d)"
    unfolding rows b list_ex_iff
    by (metis (mono_tags, lifting) filter_True length_filter_less order_less_irrefl)
  have c4: "\<not> b \<longrightarrow> d' = d"
  proof
    assume "\<not> b"
    then have "filter (\<lambda>r. \<not> ?ours r) (record_locks d) = record_locks d"
      by (auto simp: b list_ex_iff filter_id_conv)
    then show "d' = d" by (simp add: d')
  qed
  have c5: "locks_unique (record_locks d) \<longrightarrow>
            select_lock (record_locks d') et eid =
              (if b then None else select_lock (record_locks d) et eid)"
  proof
    assume u: "locks_unique (record_locks d)"
    show "select_lock (record_locks d') et eid =
              (if b then None else select_lock (record_locks d) et eid)"
    proof (cases b)
      case True
      then obtain r where r: "r \<in> set (record_locks d)" "?ours r"
        by (auto simp: b list_ex_iff)
      have "\<not> list_ex (\<lambda>x. entity_type x = et \<and> entity_id x = eid) (record_locks d')"
      proof
        assume "list_ex (\<lambda>x. entity_type x = et \<and> entity_id x = eid) (record_locks d')"
        then obtain x where x: "x \<in> set (record_locks d)" "\<not> ?ours x"
          "entity_type x = et" "entity_id x = eid"
          by (auto simp: rows list_ex_iff)
        with r have "x = r" by (intro locks_unique_same_key [OF u]) auto
        with x r show False by simp
      qed
      with True show ?thesis by (simp add: select_lock_None_iff)
    next
      case False
      with c4 show ?thesis by simp
    qed
  qed
  have c6: "release_lock d' ctx et eid = (False, d')"
  proof -
    have "\<not> list_ex ?ours (record_locks d')" by (auto simp: rows list_ex_iff)
    moreover have "filter (\<lambda>r. \<not> ?ours r) (record_locks d') = record_locks d'"
      by (simp add: rows)
    ultimately show ?thesis using Some by (simp add: release_lock_authenticated)
  qed
  from c1 c2 c3 c4 c5 c6 show ?thesis by blast
qed

text \<open>Bob cannot release Alice's lock; Alice can, once.\<close>

theorem release_lock_owner_scoped_witness:
  "release_lock alice_holds (as_user 102 60000000 12) ''job'' 123 = (False, alice_holds)
   \<and> release_lock no_locks (as_user 101 60000000 12) ''job'' 123 = (False, no_locks)
   \<and> release_lock alice_holds (as_user 101 60000000 12) ''job'' 123 = (True, no_locks)
   \<and> locks_unique (record_locks alice_holds)
   \<and> select_lock (record_locks no_locks) ''job'' 123 = None
   \<and> length (record_locks no_locks) < length (record_locks alice_holds)"
proof -
  have r1: "release_lock alice_holds (as_user 102 60000000 12) ''job'' 123 = (False, alice_holds)"
    by (simp add: release_lock_def alice_holds_def alice_lock_def as_user_def Let_def)
  have r2: "release_lock alice_holds (as_user 101 60000000 12) ''job'' 123 = (True, no_locks)"
    by (simp add: release_lock_def alice_holds_def alice_lock_def as_user_def Let_def no_locks_def)
  have u: "locks_unique (record_locks alice_holds)"
    by (simp add: locks_unique_def alice_holds_def)
  note t = release_lock_owner_scoped [OF r2]
  from t have "locks_unique (record_locks alice_holds) \<longrightarrow>
      select_lock (record_locks no_locks) ''job'' 123 =
        (if True then None else select_lock (record_locks alice_holds) ''job'' 123)"
    by blast
  with u have s: "select_lock (record_locks no_locks) ''job'' 123 = None" by simp
  from t have l: "length (record_locks no_locks) < length (record_locks alice_holds)"
    by blast
  from t have again: "release_lock no_locks (as_user 101 60000000 12) ''job'' 123 = (False, no_locks)"
    by blast
  from r1 again r2 u s l show ?thesis by blast
qed

section \<open>Racing calls of \<open>acquire_lock\<close>\<close>

lemma acquire_lock_racing_same_state:
  "acquire_lock_racing d d ctx et eid mins = acquire_lock d ctx et eid mins"
  by (simp add: acquire_lock_racing_def acquire_lock_def)

text \<open>
  Claim C7 fails on \<open>acquire_lock\<close>, whose decision and write are separate statements.
  Alice, Bob and Carol call it at once on job 123, which nobody has locked; each
  \<open>SELECT\<close> finds no row. Alice's \<open>INSERT\<close> comes first and she gets \<open>created\<close>;
  Bob's and Carol's then raise \<open>unique_violation\<close>: they are not told \<open>denied\<close>
  with the holder. And when Bob and Carol both find Alice's expired lock, both
  \<open>UPDATE\<close>s go through and both are told \<open>took_over\<close> with success; the row is
  Carol's, and \<open>check_lock\<close> tells Bob it is not his.
\<close>

theorem acquire_lock_racing_calls:
  "record_locks crew_no_locks = []
   \<and> acquire_lock_racing crew_no_locks crew_no_locks (as_user 101 0 10) ''job'' 123 15 =
       Inr (\<lparr>success = True, res_lock_id = Some 10, res_expires_at = Some 900000000,
             extended = None, took_over = None, created = Some True, error = None,
             res_locked_by = None, res_locked_by_name = None, res_locked_at = None\<rparr>,
            crew_alice_holds)
   \<and> acquire_lock_racing crew_no_locks crew_alice_holds (as_user 102 0 11) ''job'' 123 15 =
       Inl unique_violation
   \<and> acquire_lock_racing crew_no_locks crew_alice_holds (as_user 103 0 12) ''job'' 123 15 =
       Inl unique_violation
   \<and> record_locks crew_alice_holds = [alice_lock] \<and> expires_at alice_lock = 900000000
   \<and> acquire_lock_racing crew_alice_holds crew_alice_holds
         (as_user 102 900000001 11) ''job'' 123 15 =
       Inr (\<lparr>success = True, res_lock_id = Some 10, res_expires_at = Some 1800000001,
             extended = None, took_over = Some True, created = None, error = None,
             res_locked_by = None, res_locked_by_name = None, res_locked_at = None\<rparr>,
            crew_alice_holds\<lparr>record_locks :=
              [alice_lock\<lparr>locked_by := 102, locked_by_name := ''Bob'',
                 locked_at := Some 900000001, expires_at := 1800000001\<rparr>]\<rparr>)
   \<and> acquire_lock_racing crew_alice_holds
         (crew_alice_holds\<lparr>record_locks :=
              [alice_lock\<lparr>locked_by := 102, locked_by_name := ''Bob'',
                 locked_at := Some 900000001, expires_at := 1800000001\<rparr>]\<rparr>)
         (as_user 103 900000002 12) ''job'' 123 15 =
       Inr (\<lparr>success = True, res_lock_id = Some 10, res_expires_at = Some 1800000002,
             extended = None, took_over = Some True, created = None, error = None,
             res_locked_by = None, res_locked_by_name = None, res_locked_at = None\<rparr>,
            crew_alice_holds\<lparr>record_locks :=
              [alice_lock\<lparr>locked_by := 103, locked_by_name := ''Carol'',
                 locked_at := Some 900000002, expires_at := 1800000002\<rparr>]\<rparr>)
   \<and> is_mine (check_lock
         (crew_alice_holds\<lparr>record_locks :=
              [alice_lock\<lparr>locked_by := 103, locked_by_name := ''Carol'',
                 locked_at := Some 900000002, expires_at := 1800000002\<rparr>]\<rparr>)
         (as_user 102 900000003 0) ''job'' 123) = Some False"
  by (simp add: acquire_lock_racing_def check_lock_def select_lock_def insert_lock_def
      update_where_id_def crew_no_locks_def crew_alice_holds_def alice_lock_def crew_def
      staff_def as_user_def minutes_def no_result_def Let_def)

section \<open>Properties of \<open>get_viewers\<close>\<close>

lemma is_true_sql_and: "is_true (sql_and a b) \<longleftrightarrow> is_true a \<and> is_true b"
  by (auto simp: is_true_def sql_and_def)

lemma is_true_sql_eq: "is_true (sql_eq a (Some y)) \<longleftrightarrow> a = Some y"
  by (auto simp: is_true_def sql_eq_def split: option.splits)

lemma is_true_sql_gt: "is_true (sql_gt a (Some y)) \<longleftrightarrow> (\<exists>x. a = Some x \<and> y < x)"
  by (auto simp: is_true_def sql_gt_def split: option.splits)

lemma is_true_sql_neq: "is_true (sql_neq (Some x) b) \<longleftrightarrow> (\<exists>y. b = Some y \<and> x \<noteq> y)"
  by (auto simp: is_true_def sql_neq_def split: option.splits)

text \<open>
  Claim C8. For an authenticated caller \<open>u\<close>, \<open>get_viewers\<close> returns the projection
  of exactly the rows of \<open>user_presence\<close> whose entity reference is the given one, whose
  \<open>last_seen\<close> is set and less than two minutes old, and whose user is not \<open>u\<close>. So
  every row returned is of another user and was seen within the last two minutes; a row
  that is older stays in the table and is not returned.
\<close>

theorem get_viewers_fresh_others:
  assumes "auth_uid ctx = Some u"
  shows "get_viewers d ctx et eid =
           map (\<lambda>up. \<lparr>user_id = up_user_id up, user_name = up_user_name up,
                       status = up_status up, last_seen = up_last_seen up\<rparr>)
             (filter (\<lambda>up. up_entity_type up = Some et \<and> up_entity_id up = Some eid
                        \<and> (\<exists>seen. up_last_seen up = Some seen \<and> now ctx - seen < minutes 2)
                        \<and> up_user_id up \<noteq> u)
                (user_presence d))
       \<and> list_all (\<lambda>v. user_id v \<noteq> u \<and>
                      (\<exists>seen. last_seen v = Some seen \<and> now ctx - seen < minutes 2))
           (get_viewers d ctx et eid)"
proof -
  have eq: "is_true
            (sql_and (sql_and (sql_and
               (sql_eq (up_entity_type up) (Some et))
               (sql_eq (up_entity_id up) (Some eid)))
               (sql_gt (up_last_seen up) (Some (now ctx - minutes 2))))
               (sql_neq (Some (up_user_id up)) (auth_uid ctx)))
        \<longleftrightarrow> up_entity_type up = Some et \<and> up_entity_id up = Some eid
                        \<and> (\<exists>seen. up_last_seen up = Some seen \<and> now ctx - seen < minutes 2)
                        \<and> up_user_id up \<noteq> u" for up
    using assms
    by (auto simp: is_true_sql_and is_true_sql_eq is_true_sql_gt is_true_sql_neq)
  have a: "get_viewers d ctx et eid =
           map (\<lambda>up. \<lparr>user_id = up_user_id up, user_name = up_user_name up,
                       status = up_status up, last_seen = up_last_seen up\<rparr>)
             (filter (\<lambda>up. up_entity_type up = Some et \<and> up_entity_id up = Some eid
                        \<and> (\<exists>seen. up_last_seen up = Some seen \<and> now ctx - seen < minutes 2)
                        \<and> up_user_id up \<noteq> u)
                (user_presence d))"
    unfolding get_viewers_def by (simp only: eq)
  have b: "list_all (\<lambda>v. user_id v \<noteq> u \<and>
                      (\<exists>seen. last_seen v = Some seen \<and> now ctx - seen < minutes 2))
           (get_viewers d ctx et eid)"
    unfolding a by (auto simp: list_all_iff)
  from a b show ?thesis by (rule conjI)
qed

text \<open>Alice asks who views job 123: Bob only. Carol's row is three minutes old.\<close>

theorem get_viewers_fresh_others_witness:
  "auth_uid (as_user 101 600000000 0) = Some 101
   \<and> length (user_presence job_viewers) = 4
   \<and> get_viewers job_viewers (as_user 101 600000000 0) ''job'' 123 =
       [\<lparr>user_id = 102, user_name = ''Bob'', status = Some ''online'',
         last_seen = Some 570000000\<rparr>]
   \<and> list_all (\<lambda>v. user_id v \<noteq> 101 \<and>
                  (\<exists>seen. last_seen v = Some seen \<and> 600000000 - seen < minutes 2))
       (get_viewers job_viewers (as_user 101 600000000 0) ''job'' 123)"
proof -
  have ctx: "auth_uid (as_user 101 600000000 0) = Some 101"
    "now (as_user 101 600000000 0) = 600000000"
    by (simp_all add: as_user_def)
  from get_viewers_fresh_others [OF ctx(1), of job_viewers "''job''" 123]
  show ?thesis
    by (simp add: ctx job_viewers_def minutes_def)
qed

section \<open>Properties of the version check\<close>

lemma sint_succ_no_overflow:
  fixes v :: int4
  assumes "v \<noteq> 2147483647"
  shows "sint (v + 1) = sint v + 1"
proof -
  have lo: "- (2 ^ 31) \<le> sint v" and hi: "sint v < 2 ^ 31"
    using sint_ge [of v] sint_lt [of v] by simp_all
  have "sint v \<noteq> 2147483647"
  proof
    assume "sint v = 2147483647"
    then have "word_of_int (sint v) = (word_of_int 2147483647 :: int4)" by simp
    then have "v = 2147483647" by simp
    with assms show False by simp
  qed
  with hi have hi': "sint v + 1 < 2 ^ 31" by simp
  have "sint (v + 1) = signed_take_bit 31 (sint v + 1)"
    by (simp add: sint_word_ariths)
  also have "\<dots> = sint v + 1"
    using lo hi' by (intro signed_take_bit_int_eq_self) simp_all
  finally show ?thesis .
qed

lemma sint_int4_range: "- 2147483648 \<le> sint (v :: int4) \<and> sint v \<le> 2147483647"
  using sint_ge [of v] sint_lt [of v] by simp

text \<open>Whatever the statement returns: an error and the table as it was, or the row with
  the next version, stored.\<close>

lemma update_single_cases:
  assumes "tbl i = Some OLD" "version OLD = Some v"
  shows "(\<exists>code. update_single sch c tbl i filters updates = (Failed code, tbl)) \<or>
         (v \<noteq> 2147483647 \<and>
          update_single sch c tbl i filters updates =
            (Data ((updates OLD)\<lparr>version := Some (v + 1)\<rparr>),
             tbl(i := Some ((updates OLD)\<lparr>version := Some (v + 1)\<rparr>))))"
  using assms
  by (auto simp: update_single_def increment_version_def COALESCE_def split: option.splits)

lemma updateWithVersionCheck_cases:
  assumes "tbl i = Some row" "version row = Some v"
  shows "(\<exists>e. updateWithVersionCheck True sch c tbl i updates expectedVersion = (Inl e, tbl)) \<or>
         (v \<noteq> 2147483647 \<and>
          updateWithVersionCheck True sch c tbl i updates expectedVersion =
            (Inr ((updates row)\<lparr>version := Some (v + 1)\<rparr>),
             tbl(i := Some ((updates row)\<lparr>version := Some (v + 1)\<rparr>))))"
  using assms update_single_cases [of tbl i row v sch c
      "\<lambda>r. sql_eq (map_option sint (version r)) (Some expectedVersion)" updates]
  by (auto simp: updateWithVersionCheck_def split: if_splits)

lemma useUpdateCompany_cases:
  assumes "tbl i = Some row" "version row = Some v"
  shows "(\<exists>e. useUpdateCompany True sch c tbl i updates = (Inl e, tbl)) \<or>
         (v \<noteq> 2147483647 \<and>
          useUpdateCompany True sch c tbl i updates =
            (Inr ((updates row)\<lparr>version := Some (v + 1)\<rparr>),
             tbl(i := Some ((updates row)\<lparr>version := Some (v + 1)\<rparr>))))"
  using assms update_single_cases [of tbl i row v sch c "\<lambda>r. Some True" updates]
  by (auto simp: useUpdateCompany_def)

lemma call_update_cases:
  assumes "tbl i = Some row" "version row = Some v"
  shows "(\<exists>e. call_update sch tbl i call = (Inl e, tbl)) \<or>
         (v \<noteq> 2147483647 \<and> (\<exists>row'. call_update sch tbl i call = (Inr row', tbl(i := Some row'))
            \<and> version row' = Some (v + 1)))"
proof (cases call)
  case (Versioned c updates expectedVersion)
  with assms updateWithVersionCheck_cases [of tbl i row v sch c updates expectedVersion]
  show ?thesis by (auto simp: call_update_def)
next
  case (Unversioned c updates)
  with assms useUpdateCompany_cases [of tbl i row v sch c updates]
  show ?thesis by (auto simp: call_update_def)
qed

lemma run_updates_version:
  assumes "tbl i = Some row" "version row = Some v" "run_updates sch tbl i calls = (n, tbl')"
  shows "\<exists>row'. tbl' i = Some row' \<and> version row' = Some (v + of_nat n)
           \<and> sint (v + of_nat n) = sint v + int n"
  using assms
proof (induction calls arbitrary: tbl row v n)
  case Nil
  then show ?case by simp
next
  case (Cons call calls)
  from Cons.prems(1,2) call_update_cases [of tbl i row v sch call]
  have "(\<exists>e. call_update sch tbl i call = (Inl e, tbl)) \<or>
         (v \<noteq> 2147483647 \<and> (\<exists>row'. call_update sch tbl i call = (Inr row', tbl(i := Some row'))
            \<and> version row' = Some (v + 1)))" by simp
  then show ?case
  proof (elim disjE exE conjE)
    fix e assume "call_update sch tbl i call = (Inl e, tbl)"
    with Cons.prems(3) have "run_updates sch tbl i calls = (n, tbl')"
      by simp
    from Cons.IH [OF Cons.prems(1,2) this] show ?thesis .
  next
    fix row'
    assume nomax: "v \<noteq> 2147483647"
      and call: "call_update sch tbl i call = (Inr row', tbl(i := Some row'))"
      and ver: "version row' = Some (v + 1)"
    from Cons.prems(3) call obtain m
      where rest: "run_updates sch (tbl(i := Some row')) i calls = (m, tbl')"
      and n: "n = Suc m"
      by (auto split: prod.splits)
    have "(tbl(i := Some row')) i = Some row'" by simp
    from Cons.IH [OF this ver rest] obtain row'' where
      r: "tbl' i = Some row''" "version row'' = Some (v + 1 + of_nat m)"
        "sint (v + 1 + of_nat m) = sint (v + 1) + int m"
      by blast
    have w: "v + 1 + of_nat m = v + of_nat n" by (simp add: n)
    have "sint (v + 1) + int m = sint v + int n"
      by (simp add: n sint_succ_no_overflow [OF nomax])
    with r(3) have "sint (v + of_nat n) = sint v + int n"
      unfolding w by simp
    moreover from r(1,2) have "tbl' i = Some row'' \<and> version row'' = Some (v + of_nat n)"
      unfolding w by simp
    ultimately show ?thesis by blast
  qed
qed


text \<open>
  Claim C5 as stated fails twice for an update with the matching \<open>expectedVersion\<close>.
  On a row whose version is 2147483647, the largest \<open>INTEGER\<close>, an administrator's
  update is rejected because the trigger's \<open>+ 1\<close> is out of range. On a row at
  version 4, the update of a technician, whom the update policy of \<open>companies\<close>
  leaves out, reaches no row and is rejected with the conflict error.
\<close>

theorem versioned_update_with_matching_version_rejected:
  "companies_max 42 = Some \<lparr>version = Some 2147483647, columns = ''Acme''\<rparr>
   \<and> updateWithVersionCheck True companies_schema administrator companies_max 42
         (rename ''Acme Ltd'') 2147483647 =
       (Inl (PostgrestError ''22003''), companies_max)
   \<and> companies_v4 42 = Some \<lparr>version = Some 4, columns = ''Acme''\<rparr>
   \<and> updateWithVersionCheck True companies_schema a_technician companies_v4 42
         (rename ''Acme Ltd'') 4 =
       (Inl (Error ''This record has been modified by another user. Please refresh and try again.''),
        companies_v4)"
  by (simp add: updateWithVersionCheck_def update_single_def increment_version_def
      COALESCE_def is_true_def sql_eq_def sqlstate_def companies_max_def companies_v4_def
      companies_schema_def administrator_def a_technician_def is_staff_def role_in_def
      get_staff_role_def belongs_to_company_def)

text \<open>
  Claim C5, amended. For a row with version \<open>v\<close> and a versioned update with an
  integral \<open>expectedVersion\<close>:

  \<^item> if \<open>expectedVersion = v\<close>, \<open>v\<close> is below 2147483647, the row level security
    policies of the table let the caller select and update the row and keep the new
    row, and the new row satisfies the table's constraints, the update succeeds and
    stores the new row with version \<open>v + 1\<close> (no wrap-around), whatever the update
    changes;
  \<^item> if the policies hide the row from the caller, the update is rejected with the
    conflict error although the version matches;
  \<^item> if \<open>expectedVersion = v = 2147483647\<close> and the policies let the caller reach the
    row, it is rejected with SQLSTATE 22003;
  \<^item> if the policies refuse the new row, it is rejected with SQLSTATE 42501, and if
    the new row violates a constraint, with the SQLSTATE of that;
  \<^item> if \<open>expectedVersion\<close> is another \<open>INTEGER\<close> than \<open>v\<close>, it is rejected with
    the conflict error; if it is outside \<open>INTEGER\<close>, with the error of the cast;
  \<^item> every rejected update leaves the table unchanged;
  \<^item> over any sequence of update calls on the row, versioned or not and by any callers,
    the version ends at \<open>v\<close> plus the number of calls that succeeded.
\<close>

theorem versioned_update_guard:
  assumes "tbl i = Some row" and "version row = Some v"
  shows "(select_using sch c i row \<and> update_using sch c i row \<and> v \<noteq> 2147483647
          \<and> select_using sch c i ((updates row)\<lparr>version := Some (v + 1)\<rparr>)
          \<and> update_using sch c i ((updates row)\<lparr>version := Some (v + 1)\<rparr>)
          \<and> violated sch ((updates row)\<lparr>version := Some (v + 1)\<rparr>) = None \<longrightarrow>
            updateWithVersionCheck True sch c tbl i updates (sint v) =
              (Inr ((updates row)\<lparr>version := Some (v + 1)\<rparr>),
               tbl(i := Some ((updates row)\<lparr>version := Some (v + 1)\<rparr>)))
            \<and> sint (v + 1) = sint v + 1)
       \<and> (\<not> (select_using sch c i row \<and> update_using sch c i row) \<longrightarrow>
            updateWithVersionCheck True sch c tbl i updates (sint v) =
              (Inl (Error ''This record has been modified by another user. Please refresh and try again.''),
               tbl))
       \<and> (select_using sch c i row \<and> update_using sch c i row \<and> v = 2147483647 \<longrightarrow>
            updateWithVersionCheck True sch c tbl i updates (sint v) =
              (Inl (PostgrestError ''22003''), tbl))
       \<and> (select_using sch c i row \<and> update_using sch c i row \<and> v \<noteq> 2147483647
          \<and> \<not> (select_using sch c i ((updates row)\<lparr>version := Some (v + 1)\<rparr>)
                 \<and> update_using sch c i ((updates row)\<lparr>version := Some (v + 1)\<rparr>)) \<longrightarrow>
            updateWithVersionCheck True sch c tbl i updates (sint v) =
              (Inl (PostgrestError ''42501''), tbl))
       \<and> (\<forall>code. select_using sch c i row \<and> update_using sch c i row \<and> v \<noteq> 2147483647
          \<and> select_using sch c i ((updates row)\<lparr>version := Some (v + 1)\<rparr>)
          \<and> update_using sch c i ((updates row)\<lparr>version := Some (v + 1)\<rparr>)
          \<and> violated sch ((updates row)\<lparr>version := Some (v + 1)\<rparr>) = Some code
          \<and> code \<noteq> ''PGRST116'' \<longrightarrow>
            updateWithVersionCheck True sch c tbl i updates (sint v) =
              (Inl (PostgrestError code), tbl))
       \<and> (expectedVersion \<noteq> sint v \<and> - 2147483648 \<le> expectedVersion
            \<and> expectedVersion \<le> 2147483647 \<longrightarrow>
            updateWithVersionCheck True sch c tbl i updates expectedVersion =
              (Inl (Error ''This record has been modified by another user. Please refresh and try again.''),
               tbl))
       \<and> (expectedVersion < - 2147483648 \<or> 2147483647 < expectedVersion \<longrightarrow>
            updateWithVersionCheck True sch c tbl i updates expectedVersion =
              (Inl (PostgrestError (if \<bar>expectedVersion\<bar> < 10 ^ 21 then ''22003'' else ''22P02'')),
               tbl))
       \<and> (\<forall>e tbl'. updateWithVersionCheck True sch c tbl i updates expectedVersion = (Inl e, tbl')
            \<longrightarrow> tbl' = tbl)
       \<and> (\<forall>calls n tbl'. run_updates sch tbl i calls = (n, tbl') \<longrightarrow>
            (\<exists>row'. tbl' i = Some row' \<and> version row' = Some (v + of_nat n)
               \<and> sint (v + of_nat n) = sint v + int n))"
proof (intro conjI impI allI)
  let ?NEW = "(updates row)\<lparr>version := Some (v + 1)\<rparr>"
  note range = sint_int4_range [of v]
  note defs = updateWithVersionCheck_def update_single_def increment_version_def
    COALESCE_def is_true_def sql_eq_def sqlstate_def
  {
    assume a: "select_using sch c i row \<and> update_using sch c i row \<and> v \<noteq> 2147483647
          \<and> select_using sch c i ?NEW \<and> update_using sch c i ?NEW \<and> violated sch ?NEW = None"
    with assms range show "updateWithVersionCheck True sch c tbl i updates (sint v) =
        (Inr ?NEW, tbl(i := Some ?NEW))"
      by (simp add: defs)
    from a show "sint (v + 1) = sint v + 1" by (simp add: sint_succ_no_overflow)
  }
  {
    assume "\<not> (select_using sch c i row \<and> update_using sch c i row)"
    with assms range show "updateWithVersionCheck True sch c tbl i updates (sint v) =
        (Inl (Error ''This record has been modified by another user. Please refresh and try again.''), tbl)"
      by (auto simp: defs)
  }
  {
    assume a: "select_using sch c i row \<and> update_using sch c i row \<and> v = 2147483647"
    with assms range show "updateWithVersionCheck True sch c tbl i updates (sint v) =
        (Inl (PostgrestError ''22003''), tbl)"
      by (simp add: defs)
  }
  {
    assume a: "select_using sch c i row \<and> update_using sch c i row \<and> v \<noteq> 2147483647
          \<and> \<not> (select_using sch c i ?NEW \<and> update_using sch c i ?NEW)"
    with assms range show "updateWithVersionCheck True sch c tbl i updates (sint v) =
        (Inl (PostgrestError ''42501''), tbl)"
      by (auto simp: defs)
  }
  {
    fix code
    assume a: "select_using sch c i row \<and> update_using sch c i row \<and> v \<noteq> 2147483647
          \<and> select_using sch c i ?NEW \<and> update_using sch c i ?NEW
          \<and> violated sch ?NEW = Some code \<and> code \<noteq> ''PGRST116''"
    with assms range show "updateWithVersionCheck True sch c tbl i updates (sint v) =
        (Inl (PostgrestError code), tbl)"
      by (simp add: defs)
  }
  {
    assume a: "expectedVersion \<noteq> sint v \<and> - 2147483648 \<le> expectedVersion
            \<and> expectedVersion \<le> 2147483647"
    with assms show "updateWithVersionCheck True sch c tbl i updates expectedVersion =
        (Inl (Error ''This record has been modified by another user. Please refresh and try again.''), tbl)"
      by (auto simp: defs)
  }
  {
    assume "expectedVersion < - 2147483648 \<or> 2147483647 < expectedVersion"
    then show "updateWithVersionCheck True sch c tbl i updates expectedVersion =
              (Inl (PostgrestError (if \<bar>expectedVersion\<bar> < 10 ^ 21 then ''22003'' else ''22P02'')),
               tbl)"
      by (simp add: updateWithVersionCheck_def)
  }
  {
    fix e tbl'
    assume "updateWithVersionCheck True sch c tbl i updates expectedVersion = (Inl e, tbl')"
    with assms updateWithVersionCheck_cases [of tbl i row v sch c updates expectedVersion]
    show "tbl' = tbl" by auto
  }
  {
    fix calls n tbl'
    assume "run_updates sch tbl i calls = (n, tbl')"
    with assms show "\<exists>row'. tbl' i = Some row' \<and> version row' = Some (v + of_nat n)
               \<and> sint (v + of_nat n) = sint v + int n"
      by (rule run_updates_version)
  }
qed

text \<open>An administrator on a row at version 4: the update that expects 4 stores version 5,
  the ones that expect 3 or 4294967300 are refused, a technician's is refused with the
  matching version, and of four calls in a row the two that succeed bring it to 6.\<close>

theorem versioned_update_guard_witness:
  "companies_v4 42 = Some \<lparr>version = Some 4, columns = ''Acme''\<rparr>
   \<and> select_using companies_schema administrator 42 \<lparr>version = Some 4, columns = ''Acme''\<rparr>
   \<and> update_using companies_schema administrator 42 \<lparr>version = Some 4, columns = ''Acme''\<rparr>
   \<and> \<not> update_using companies_schema a_technician 42 \<lparr>version = Some 4, columns = ''Acme''\<rparr>
   \<and> updateWithVersionCheck True companies_schema administrator companies_v4 42
         (rename ''Acme Ltd'') 4 =
       (Inr \<lparr>version = Some 5, columns = ''Acme Ltd''\<rparr>,
        companies_v4(42 := Some \<lparr>version = Some 5, columns = ''Acme Ltd''\<rparr>))
   \<and> updateWithVersionCheck True companies_schema a_technician companies_v4 42
         (rename ''Acme Ltd'') 4 =
       (Inl (Error ''This record has been modified by another user. Please refresh and try again.''),
        companies_v4)
   \<and> updateWithVersionCheck True companies_schema administrator companies_v4 42
         (rename ''Acme Ltd'') 3 =
       (Inl (Error ''This record has been modified by another user. Please refresh and try again.''),
        companies_v4)
   \<and> updateWithVersionCheck True companies_schema administrator companies_v4 42
         (rename ''Acme Ltd'') 4294967300 =
       (Inl (PostgrestError ''22003''), companies_v4)
   \<and> run_updates companies_schema companies_v4 42
        [Versioned administrator (rename ''Acme Ltd'') 4,
         Versioned administrator (rename ''Acme Inc'') 4,
         Versioned a_technician (rename ''Acme Co'') 5,
         Unversioned administrator (rename ''Acme Pty'')] =
       (2, companies_v4(42 := Some \<lparr>version = Some 6, columns = ''Acme Pty''\<rparr>))
   \<and> (\<exists>row'. (companies_v4(42 := Some \<lparr>version = Some 6, columns = ''Acme Pty''\<rparr>)) 42 = Some row'
         \<and> version row' = Some (4 + 2) \<and> sint (4 + 2 :: int4) = sint (4 :: int4) + 2)"
proof -
  let ?row = "\<lparr>version = Some (4 :: int4), columns = ''Acme''\<rparr>"
  have row: "companies_v4 42 = Some ?row"
    by (simp add: companies_v4_def)
  have ver: "version ?row = Some 4" by simp
  have pol: "select_using companies_schema administrator 42 r"
    "update_using companies_schema administrator 42 r"
    "\<not> update_using companies_schema a_technician 42 r"
    "violated companies_schema r = None" for r :: "string versioned"
    by (simp_all add: companies_schema_def administrator_def a_technician_def is_staff_def
        role_in_def get_staff_role_def)
  have s4: "sint (4 :: int4) = 4" by simp
  note g = versioned_update_guard [of companies_v4 42 ?row 4 companies_schema _
      "rename ''Acme Ltd''", OF row ver, unfolded s4]
  from g [of administrator 3] pol
  have a: "updateWithVersionCheck True companies_schema administrator companies_v4 42
         (rename ''Acme Ltd'') 4 =
       (Inr \<lparr>version = Some 5, columns = ''Acme Ltd''\<rparr>,
        companies_v4(42 := Some \<lparr>version = Some 5, columns = ''Acme Ltd''\<rparr>))"
    by (simp add: rename_def)
  from g [of a_technician 3] pol
  have b: "updateWithVersionCheck True companies_schema a_technician companies_v4 42
         (rename ''Acme Ltd'') 4 =
       (Inl (Error ''This record has been modified by another user. Please refresh and try again.''),
        companies_v4)"
    by simp
  from g [of administrator 3]
  have c: "updateWithVersionCheck True companies_schema administrator companies_v4 42
         (rename ''Acme Ltd'') 3 =
       (Inl (Error ''This record has been modified by another user. Please refresh and try again.''),
        companies_v4)"
    by simp
  from g [of administrator 4294967300]
  have d: "updateWithVersionCheck True companies_schema administrator companies_v4 42
         (rename ''Acme Ltd'') 4294967300 =
       (Inl (PostgrestError ''22003''), companies_v4)"
    by simp
  have run: "run_updates companies_schema companies_v4 42
        [Versioned administrator (rename ''Acme Ltd'') 4,
         Versioned administrator (rename ''Acme Inc'') 4,
         Versioned a_technician (rename ''Acme Co'') 5,
         Unversioned administrator (rename ''Acme Pty'')] =
       (2, companies_v4(42 := Some \<lparr>version = Some 6, columns = ''Acme Pty''\<rparr>))"
    by (simp add: call_update_def updateWithVersionCheck_def useUpdateCompany_def
        update_single_def increment_version_def COALESCE_def is_true_def sql_eq_def
        companies_v4_def rename_def pol)
  from g [of administrator 3] run
  have e: "\<exists>row'. (companies_v4(42 := Some \<lparr>version = Some 6, columns = ''Acme Pty''\<rparr>)) 42 = Some row'
         \<and> version row' = Some (4 + of_nat 2) \<and> sint (4 + of_nat 2 :: int4) = 4 + int 2"
    by blast
  from row pol a b c d run e show ?thesis by simp
qed

text \<open>
  Claim C6 fails on \<open>useUpdateCompany\<close>: its update statement has no version in its
  filter. On a row stored at version 4, a caller who last read version 3 is refused by
  \<open>updateWithVersionCheck\<close> and succeeds through \<open>useUpdateCompany\<close>, which
  overwrites the name and stores version 5. The caller is an administrator, whom the
  policies of \<open>companies\<close> let update the row.
\<close>

theorem useUpdateCompany_ignores_version:
  "companies_v4 42 = Some \<lparr>version = Some 4, columns = ''Acme''\<rparr>
   \<and> updateWithVersionCheck True companies_schema administrator companies_v4 42
         (rename ''Acme Ltd'') 3 =
       (Inl (Error ''This record has been modified by another user. Please refresh and try again.''),
        companies_v4)
   \<and> useUpdateCompany True companies_schema administrator companies_v4 42
         (rename ''Acme Ltd'') =
       (Inr \<lparr>version = Some 5, columns = ''Acme Ltd''\<rparr>,
        companies_v4(42 := Some \<lparr>version = Some 5, columns = ''Acme Ltd''\<rparr>))"
  by (simp add: updateWithVersionCheck_def useUpdateCompany_def
      update_single_def increment_version_def COALESCE_def is_true_def sql_eq_def
      companies_v4_def rename_def companies_schema_def administrator_def is_staff_def
      role_in_def get_staff_role_def)

section \<open>The extension timer of the edit-mode hook\<close>

text \<open>
  Claim C9 fails on the timer callback: it takes any result with \<open>success = false\<close>
  for a lost lock, and \<open>acquireLock\<close> turns a failed request into such a result. One
  network error during an edit session that holds the lock ends the session: the edits
  are discarded and the user is told that another user is editing.
\<close>

theorem extend_tick_network_error_ends_edit:
  "isLockedByMe editing \<and> isEditing editing \<and> editData editing = Some ''draft''
   \<and> extend_tick True (RpcError ''TypeError: Failed to fetch'') editing =
       \<lparr>lockInfo = Some (not_locked\<lparr>locked := True, is_mine := Some False\<rparr>),
        isEditing = False, editData = None,
        alerts = [''Your editing session was interrupted. Another user is now editing this record.'']\<rparr>"
  by (simp add: extend_tick_def acquireLock_def onLockLost_def isLockedByMe_def editing_def
      not_locked_def no_result_def)

end
